theory Spec2Isabelle
  imports Main
begin

section \<open>Data model (apps/users/models.py, apps/projects/models.py, apps/audit/models.py)\<close>

text \<open>
  Primary keys and invitation tokens are UUIDs in the source; they are modelled as natural
  numbers.  Timestamps are integers (seconds).  Character fields with a fixed set of
  choices are datatypes; the system role \<open>MANAGER\<close> and the project roles \<open>VIEWER\<close> and
  \<open>MEMBER\<close> are not among the model's choices but are compared against by the code, and
  \<open>OtherRole\<close> stands for any other string a role column can hold.
\<close>

datatype sys_role = ADMIN | MANAGER | EMPLOYEE

datatype proj_role = LEAD | DEVELOPER | TESTER | ANALYST | DESIGNER | VIEWER | MEMBER
  | OtherRole string

datatype inv_status = PENDING | ACCEPTED | REJECTED | EXPIRED | DECLINED

record user =
  u_id :: nat
  u_email :: string
  u_role :: sys_role

record project =
  p_id :: nat
  p_name :: string
  p_code :: string
  p_department :: nat
  p_manager :: "nat option"
  p_status :: string
  p_is_active :: bool
  p_start_date :: int
  p_end_date :: int

record project_member =
  pm_id :: nat
  pm_project :: nat
  pm_user :: nat
  pm_role :: proj_role
  pm_is_active :: bool

record project_invitation =
  inv_id :: nat
  inv_project :: nat
  inv_invited_by :: nat
  inv_email :: string
  inv_role :: proj_role
  inv_token :: nat
  inv_status :: inv_status
  inv_message :: string
  inv_expires_at :: int
  inv_accepted_at :: "int option"

record task =
  t_id :: nat
  t_project :: nat

text \<open>
  The \<open>changes\<close> JSON column of an audit row is either a marker dictionary
  \<open>{'action': m}\<close> or a dictionary of field diffs \<open>{field: {'old': o, 'new': n}}\<close>.
\<close>

datatype changes = Marker string | Diff "(string \<times> string \<times> string) list"

datatype model_kind = User_model | Department_model | Project_model | ProjectMember_model
  | Task_model | Timesheet_model | TimesheetApproval_model | ProjectInvitation_model

record audit_log =
  al_user :: "nat option"
  al_action :: string
  al_model :: model_kind
  al_object_id :: "nat option"
  al_changes :: changes

text \<open>
  config/settings.py selects MySQL with the collation \<open>utf8mb4_unicode_ci\<close>, under which
  the database compares strings ignoring letter case; the alternative PostgreSQL
  configuration of apps/core/services/database_config.py compares them exactly.  The
  collation is part of the database state, and every ORM lookup on a string column goes
  through \<open>col_eq\<close>.
\<close>

datatype collation = CaseInsensitive | CaseSensitive

record db =
  collation :: collation
  users :: "user list"
  projects :: "project list"
  members :: "project_member list"
  invitations :: "project_invitation list"
  tasks :: "task list"
  audit_logs :: "audit_log list"

section \<open>Strings\<close>

text \<open>
  Strings are lists of 8-bit characters.  \<open>lower\<close> and \<open>upper\<close> are Python's \<open>str.lower\<close>
  and \<open>str.upper\<close> on ASCII text: on a string of ASCII characters they return what Python
  returns, and they leave every other character as it is, where Python also maps the cased
  letters outside ASCII.  The addresses and names they are evaluated on below are ASCII.
\<close>

definition lower_char :: "char \<Rightarrow> char" where
  "lower_char c = (let n = (of_char c :: nat) in
     if 65 \<le> n \<and> n \<le> 90 then char_of (n + 32) else c)"

definition upper_char :: "char \<Rightarrow> char" where
  "upper_char c = (let n = (of_char c :: nat) in
     if 97 \<le> n \<and> n \<le> 122 then char_of (n - 32) else c)"

definition lower :: "string \<Rightarrow> string" where
  "lower s = map lower_char s"

definition upper :: "string \<Rightarrow> string" where
  "upper s = map upper_char s"

definition col_eq :: "db \<Rightarrow> string \<Rightarrow> string \<Rightarrow> bool" where
  "col_eq d a b = (case collation d of
      CaseInsensitive \<Rightarrow> lower a = lower b
    | CaseSensitive \<Rightarrow> a = b)"

section \<open>ORM primitives\<close>

text \<open>
  \<open>Model.objects.get(...)\<close> returns the single matching row, raises \<open>DoesNotExist\<close> when
  there is none and \<open>MultipleObjectsReturned\<close> when there are several.
\<close>

datatype 'a get_result = DoesNotExist | MultipleObjectsReturned | Got 'a

definition objects_get :: "('a \<Rightarrow> bool) \<Rightarrow> 'a list \<Rightarrow> 'a get_result" where
  "objects_get P xs = (case filter P xs of
      [] \<Rightarrow> DoesNotExist
    | [x] \<Rightarrow> Got x
    | _ \<Rightarrow> MultipleObjectsReturned)"

text \<open>\<open>uuid.uuid4()\<close>: an identifier that occurs nowhere among the given ones.\<close>

definition fresh :: "nat list \<Rightarrow> nat" where
  "fresh ids = Suc (fold max ids 0)"

text \<open>Exceptions that no handler of the application catches (HTTP 500).\<close>

datatype exn = MultipleObjectsReturnedExn | IntegrityError

section \<open>Permission layer (apps/projects/permissions.py)\<close>

datatype http_method = GET | HEAD | OPTIONS | POST | PUT | PATCH | DELETE

datatype view_action = List_action | Create_action | Retrieve_action | Update_action
  | Partial_update_action | Destroy_action | Add_member_action | Remove_member_action
  | Members_action | Invite_members_action | List_invitations_action
  | Resend_invitation_action | Delete_invitation_action | Update_invitation_action
  | Tasks_action | My_projects_action | Accept_invitation_action | Reject_invitation_action

definition SAFE_METHODS :: "http_method list" where
  "SAFE_METHODS = [GET, HEAD, OPTIONS]"

text \<open>\<open>ProjectMember.objects.get(project=project, user=user, is_active=True)\<close>\<close>

definition get_active_membership :: "db \<Rightarrow> user \<Rightarrow> project \<Rightarrow> project_member get_result" where
  "get_active_membership d u p =
     objects_get (\<lambda>m. pm_project m = p_id p \<and> pm_user m = u_id u \<and> pm_is_active m) (members d)"

definition get_user_project_role :: "db \<Rightarrow> user \<Rightarrow> project \<Rightarrow> exn + proj_role option" where
  "get_user_project_role d u p = (case get_active_membership d u p of
      Got membership \<Rightarrow> Inr (Some (pm_role membership))
    | DoesNotExist \<Rightarrow> Inr None
    | MultipleObjectsReturned \<Rightarrow> Inl MultipleObjectsReturnedExn)"

definition can_user_access_project :: "db \<Rightarrow> user \<Rightarrow> project \<Rightarrow> bool" where
  "can_user_access_project d u p =
     (if u_role u = ADMIN then True
      else filter (\<lambda>m. pm_project m = p_id p \<and> pm_user m = u_id u \<and> pm_is_active m)
             (members d) \<noteq> [])"

definition can_user_manage_project :: "db \<Rightarrow> user \<Rightarrow> project \<Rightarrow> exn + bool" where
  "can_user_manage_project d u p =
     (if u_role u = ADMIN then Inr True
      else case get_active_membership d u p of
          Got membership \<Rightarrow> Inr (pm_role membership = LEAD)
        | DoesNotExist \<Rightarrow> Inr False
        | MultipleObjectsReturned \<Rightarrow> Inl MultipleObjectsReturnedExn)"

text \<open>\<open>ProjectPermission.has_object_permission(request, view, obj)\<close>\<close>

definition has_object_permission ::
  "db \<Rightarrow> user \<Rightarrow> http_method \<Rightarrow> view_action \<Rightarrow> project \<Rightarrow> exn + bool" where
  "has_object_permission d u method action obj =
     (if u_role u = ADMIN then Inr True
      else case get_active_membership d u obj of
          DoesNotExist \<Rightarrow> Inr False
        | MultipleObjectsReturned \<Rightarrow> Inl MultipleObjectsReturnedExn
        | Got membership \<Rightarrow>
            if method \<in> set SAFE_METHODS then Inr True
            else if action \<in> {Update_action, Partial_update_action, Destroy_action}
              then Inr (pm_role membership = LEAD)
            else if action \<in> {Add_member_action, Remove_member_action, Members_action,
                     Invite_members_action, List_invitations_action,
                     Resend_invitation_action, Delete_invitation_action,
                     Update_invitation_action}
              then Inr (pm_role membership = LEAD \<or> u_role u = ADMIN)
            else Inr False)"

text \<open>
  Database constraints: \<open>unique_together = ['project', 'user']\<close> on project members,
  unique primary keys and unique invitation tokens.
\<close>

definition members_unique :: "db \<Rightarrow> bool" where
  "members_unique d = distinct (map (\<lambda>m. (pm_project m, pm_user m)) (members d))"

section \<open>Audit recorder (apps/audit/signals.py, apps/audit/models.py)\<close>

text \<open>
  What the signal handlers read of a model instance: its primary key, the
  \<open>_current_user\<close> attribute and the values of its persisted fields (as strings).
\<close>

record model_instance =
  i_pk :: "nat option"
  i_current_user :: "nat option"
  i_fields :: "(string \<times> string) list"

definition AUDITED_MODELS :: "model_kind list" where
  "AUDITED_MODELS = [User_model, Department_model, Project_model, ProjectMember_model,
     Task_model, Timesheet_model, TimesheetApproval_model]"

text \<open>Truth value of a Python dictionary: empty is false.\<close>

fun truthy :: "changes \<Rightarrow> bool" where
  "truthy (Marker m) = True"
| "truthy (Diff fs) = (fs \<noteq> [])"

text \<open>
  \<open>get_model_changes(instance)\<close>; \<open>old\<close> is the stored row with the instance's primary key
  (its field values in the order of \<open>_meta.fields\<close>), \<open>None\<close> when the lookup raises
  \<open>DoesNotExist\<close>.
\<close>

definition get_model_changes :: "(string \<times> string) list option \<Rightarrow> model_instance \<Rightarrow> changes" where
  "get_model_changes old inst =
     (if i_pk inst = None then Marker ''created''
      else case old of
          None \<Rightarrow> Marker ''created''
        | Some old_fields \<Rightarrow>
            Diff (concat (map (\<lambda>((name, old_value), (name', new_value)).
                    if old_value \<noteq> new_value then [(name, old_value, new_value)] else [])
                  (zip old_fields (i_fields inst)))))"

text \<open>\<open>AuditLog.log(user, action, obj, changes)\<close>; the request metadata is left out.\<close>

definition AuditLog_log ::
  "nat option \<Rightarrow> string \<Rightarrow> model_kind \<Rightarrow> model_instance \<Rightarrow> changes \<Rightarrow> db \<Rightarrow> db" where
  "AuditLog_log usr action kind obj chg d =
     d\<lparr>audit_logs := audit_logs d @
        [\<lparr>al_user = usr, al_action = action, al_model = kind,
          al_object_id = i_pk obj, al_changes = chg\<rparr>]\<rparr>"

text \<open>The \<open>post_save\<close> receiver.\<close>

definition log_model_save ::
  "model_kind \<Rightarrow> model_instance \<Rightarrow> bool \<Rightarrow> (string \<times> string) list option \<Rightarrow> db \<Rightarrow> db" where
  "log_model_save sender inst created old d =
     (if sender \<notin> set AUDITED_MODELS then d
      else
        let usr = i_current_user inst;
            action = (if created then ''CREATE'' else ''UPDATE'');
            chg = (if created then Marker ''created'' else get_model_changes old inst)
        in if truthy chg \<and> chg \<noteq> Marker ''created''
           then AuditLog_log usr action sender inst chg d
           else d)"

text \<open>The \<open>post_delete\<close> receiver.\<close>

definition log_model_delete :: "model_kind \<Rightarrow> model_instance \<Rightarrow> db \<Rightarrow> db" where
  "log_model_delete sender inst d =
     (if sender \<notin> set AUDITED_MODELS then d
      else AuditLog_log (i_current_user inst) ''DELETE'' sender inst (Marker ''deleted'') d)"

text \<open>
  The instance a handler receives for a row of the tables modelled here.  Its field
  values are read by \<open>get_model_changes\<close> only, which runs for updates; the creation and
  deletion paths below pass none.
\<close>

definition instance_of :: "nat \<Rightarrow> model_instance" where
  "instance_of pk = \<lparr>i_pk = Some pk, i_current_user = None, i_fields = []\<rparr>"

section \<open>Project listing (apps/projects/views.py, ProjectViewSet.get_queryset)\<close>

text \<open>
  The query parameters of a request.  A department or manager parameter is the identifier
  it names.
\<close>

record query_params =
  qp_status :: "string option"
  qp_department :: "nat option"
  qp_manager :: "nat option"
  qp_is_active :: "string option"

definition no_params :: query_params where
  "no_params = \<lparr>qp_status = None, qp_department = None, qp_manager = None,
     qp_is_active = None\<rparr>"

definition get_queryset :: "db \<Rightarrow> user \<Rightarrow> view_action \<Rightarrow> query_params \<Rightarrow> project list" where
  "get_queryset d usr action qp =
     (let qs0 = projects d;
          qs1 = (case qp_status qp of
                   Some s \<Rightarrow> if s \<noteq> [] then filter (\<lambda>p. col_eq d (p_status p) (upper s)) qs0
                            else qs0
                 | None \<Rightarrow> qs0);
          qs2 = (case qp_department qp of
                   Some dep \<Rightarrow> filter (\<lambda>p. p_department p = dep) qs1
                 | None \<Rightarrow> qs1);
          qs3 = (case qp_manager qp of
                   Some m \<Rightarrow> filter (\<lambda>p. p_manager p = Some m) qs2
                 | None \<Rightarrow> qs2);
          qs4 = (case qp_is_active qp of
                   Some a \<Rightarrow> filter (\<lambda>p. p_is_active p = (lower a = ''true'')) qs3
                 | None \<Rightarrow> qs3)
      in if action = List_action
         then filter (\<lambda>p. p_manager p = Some (u_id usr) \<or>
                 list_ex (\<lambda>m. pm_project m = p_id p \<and> pm_user m = u_id usr) (members d)) qs4
         else qs4)"

text \<open>The listing a user gets from a request without query parameters.\<close>

definition listVisibleProjects :: "db \<Rightarrow> user \<Rightarrow> project list" where
  "listVisibleProjects d usr = get_queryset d usr List_action no_params"

text \<open>
  \<open>get_object()\<close>: look the project up by primary key in the queryset (HTTP 404 when it is
  not there), then check the object permission (HTTP 403).
\<close>

datatype response = Response nat string

fun status_code :: "response \<Rightarrow> nat" where
  "status_code (Response c m) = c"

definition get_object ::
  "db \<Rightarrow> user \<Rightarrow> http_method \<Rightarrow> view_action \<Rightarrow> query_params \<Rightarrow> nat \<Rightarrow> response + project"
  where
  "get_object d usr method action qp pk =
     (case objects_get (\<lambda>p. p_id p = pk) (get_queryset d usr action qp) of
        DoesNotExist \<Rightarrow> Inl (Response 404 ''Not found.'')
      | MultipleObjectsReturned \<Rightarrow> Inl (Response 500 ''MultipleObjectsReturned'')
      | Got obj \<Rightarrow>
          (case has_object_permission d usr method action obj of
             Inl e \<Rightarrow> Inl (Response 500 ''MultipleObjectsReturned'')
           | Inr False \<Rightarrow> Inl (Response 403 ''You do not have permission to perform this action.'')
           | Inr True \<Rightarrow> Inr obj))"

section \<open>Invitation workflow of ProjectViewSet (apps/projects/views.py, serializers.py)\<close>

definition SEVEN_DAYS :: int where
  "SEVEN_DAYS = 604800"

text \<open>
  What a serializer or model operation can end in: a value, a \<open>ValidationError\<close>
  (HTTP 400) or an exception nobody catches (HTTP 500).
\<close>

datatype 'a outcome = Ok 'a | ValidationError string | Raised exn

definition server_error :: response where
  "server_error = Response 500 ''Server Error (500)''"

text \<open>
  \<open>invitation.save()\<close> of a row read from the table: an UPDATE by primary key.
  ProjectInvitation is not an audited model.
\<close>

definition save_invitation :: "project_invitation \<Rightarrow> db \<Rightarrow> db" where
  "save_invitation invt d =
     d\<lparr>invitations := map (\<lambda>i. if inv_id i = inv_id invt then invt else i) (invitations d)\<rparr>"

definition get_invitation_by_token :: "db \<Rightarrow> nat \<Rightarrow> project_invitation get_result" where
  "get_invitation_by_token d token = objects_get (\<lambda>i. inv_token i = token) (invitations d)"

text \<open>\<open>ProjectInvitation.is_expired\<close> of apps/projects/models.py\<close>

definition is_expired :: "int \<Rightarrow> project_invitation \<Rightarrow> bool" where
  "is_expired now invt = (now > inv_expires_at invt)"

fun status_lower :: "inv_status \<Rightarrow> string" where
  "status_lower PENDING = ''pending''"
| "status_lower ACCEPTED = ''accepted''"
| "status_lower REJECTED = ''rejected''"
| "status_lower EXPIRED = ''expired''"
| "status_lower DECLINED = ''declined''"

text \<open>
  \<open>AcceptInvitationSerializer.validate_token\<close>.  The EXPIRED status is saved before the
  error is raised, so the database is part of the result.
\<close>

definition validate_token :: "int \<Rightarrow> db \<Rightarrow> nat \<Rightarrow> nat outcome \<times> db" where
  "validate_token now d token =
     (case get_invitation_by_token d token of
        DoesNotExist \<Rightarrow> (ValidationError ''Invalid invitation token.'', d)
      | MultipleObjectsReturned \<Rightarrow> (Raised MultipleObjectsReturnedExn, d)
      | Got invitation \<Rightarrow>
          if inv_status invitation \<noteq> PENDING
          then (ValidationError (''Invitation is '' @ status_lower (inv_status invitation) @ ''.''), d)
          else if is_expired now invitation
          then (ValidationError ''Invitation has expired.'',
                save_invitation (invitation\<lparr>inv_status := EXPIRED\<rparr>) d)
          else (Ok token, d))"

text \<open>
  \<open>ProjectMember.objects.create(project=..., user=..., role=..., is_active=...)\<close>: the
  database refuses a second row for the same (project, user); the \<open>post_save\<close> receiver
  runs on the inserted row.
\<close>

definition create_project_member :: "nat \<Rightarrow> nat \<Rightarrow> proj_role \<Rightarrow> bool \<Rightarrow> db \<Rightarrow> exn + db" where
  "create_project_member proj usr role active d =
     (if list_ex (\<lambda>m. pm_project m = proj \<and> pm_user m = usr) (members d)
      then Inl IntegrityError
      else
        let new_id = fresh (map pm_id (members d));
            row = \<lparr>pm_id = new_id, pm_project = proj, pm_user = usr, pm_role = role,
                    pm_is_active = active\<rparr>
        in Inr (log_model_save ProjectMember_model (instance_of new_id) True None
                  (d\<lparr>members := members d @ [row]\<rparr>)))"

text \<open>
  \<open>ProjectViewSet.accept_invitation\<close>.  The acting user \<open>request.user\<close> is not read: the
  member is the registered user whose email the database matches with the invitation's.
\<close>

definition accept_invitation :: "int \<Rightarrow> db \<Rightarrow> user \<Rightarrow> nat \<Rightarrow> response \<times> db" where
  "accept_invitation now d request_user token =
     (case validate_token now d token of
        (ValidationError msg, d1) \<Rightarrow> (Response 400 msg, d1)
      | (Raised e, d1) \<Rightarrow> (server_error, d1)
      | (Ok tok, d1) \<Rightarrow>
          (case get_invitation_by_token d1 tok of
             DoesNotExist \<Rightarrow> (server_error, d1)
           | MultipleObjectsReturned \<Rightarrow> (server_error, d1)
           | Got invitation \<Rightarrow>
               (case filter (\<lambda>u. col_eq d1 (u_email u) (inv_email invitation)) (users d1) of
                  [] \<Rightarrow> (Response 400
                          ''No user account found with this email. Please register first.'', d1)
                | usr # rest \<Rightarrow>
                    if list_ex (\<lambda>m. pm_project m = inv_project invitation \<and>
                                   pm_user m = u_id usr \<and> pm_is_active m) (members d1)
                    then (Response 200 ''You are already a member of this project.'',
                          save_invitation (invitation\<lparr>inv_status := ACCEPTED\<rparr>) d1)
                    else
                      (case create_project_member (inv_project invitation) (u_id usr)
                              (inv_role invitation) True d1 of
                         Inl e \<Rightarrow> (server_error, d1)
                       | Inr d2 \<Rightarrow>
                           (Response 200 ''Successfully joined'',
                            save_invitation
                              (invitation\<lparr>inv_status := ACCEPTED, inv_accepted_at := Some now\<rparr>)
                              d2)))))"

text \<open>\<open>ProjectViewSet.reject_invitation\<close>\<close>

definition reject_invitation :: "int \<Rightarrow> db \<Rightarrow> user \<Rightarrow> nat \<Rightarrow> response \<times> db" where
  "reject_invitation now d request_user token =
     (case validate_token now d token of
        (ValidationError msg, d1) \<Rightarrow> (Response 400 msg, d1)
      | (Raised e, d1) \<Rightarrow> (server_error, d1)
      | (Ok tok, d1) \<Rightarrow>
          (case get_invitation_by_token d1 tok of
             DoesNotExist \<Rightarrow> (server_error, d1)
           | MultipleObjectsReturned \<Rightarrow> (server_error, d1)
           | Got invitation \<Rightarrow>
               (Response 200 ''Invitation rejected'',
                save_invitation (invitation\<lparr>inv_status := REJECTED\<rparr>) d1)))"

text \<open>
  \<open>ProjectViewSet.resend_invitation\<close>; sending the email is the mail sender's work and
  leaves the database alone.
\<close>

definition resend_invitation ::
  "int \<Rightarrow> db \<Rightarrow> user \<Rightarrow> query_params \<Rightarrow> nat \<Rightarrow> nat \<Rightarrow> response \<times> db" where
  "resend_invitation now d usr qp pk invitation_id =
     (case get_object d usr POST Resend_invitation_action qp pk of
        Inl r \<Rightarrow> (r, d)
      | Inr proj \<Rightarrow>
          (case objects_get (\<lambda>i. inv_id i = invitation_id \<and> inv_project i = p_id proj \<and>
                                 inv_status i = PENDING) (invitations d) of
             DoesNotExist \<Rightarrow> (Response 404 ''Invitation not found or already accepted'', d)
           | MultipleObjectsReturned \<Rightarrow> (server_error, d)
           | Got invitation \<Rightarrow>
               (Response 200 ''Invitation resent successfully'',
                if is_expired now invitation
                then save_invitation (invitation\<lparr>inv_expires_at := now + SEVEN_DAYS\<rparr>) d
                else d)))"

text \<open>\<open>ProjectViewSet.delete_invitation\<close>\<close>

definition delete_invitation ::
  "db \<Rightarrow> user \<Rightarrow> query_params \<Rightarrow> nat \<Rightarrow> nat \<Rightarrow> response \<times> db" where
  "delete_invitation d usr qp pk invitation_id =
     (case get_object d usr DELETE Delete_invitation_action qp pk of
        Inl r \<Rightarrow> (r, d)
      | Inr proj \<Rightarrow>
          (case objects_get (\<lambda>i. inv_id i = invitation_id \<and> inv_project i = p_id proj)
                  (invitations d) of
             DoesNotExist \<Rightarrow> (Response 404 ''Invitation not found'', d)
           | MultipleObjectsReturned \<Rightarrow> (server_error, d)
           | Got invitation \<Rightarrow>
               (Response 204 ''Invitation deleted successfully'',
                d\<lparr>invitations := filter (\<lambda>i. inv_id i \<noteq> inv_id invitation) (invitations d)\<rparr>)))"

text \<open>
  \<open>ProjectViewSet.update_invitation\<close>; the request body may carry a role and a message.
\<close>

definition update_invitation ::
  "db \<Rightarrow> user \<Rightarrow> query_params \<Rightarrow> nat \<Rightarrow> nat \<Rightarrow> proj_role option \<Rightarrow> string option
     \<Rightarrow> response \<times> db" where
  "update_invitation d usr qp pk invitation_id new_role new_message =
     (case get_object d usr PATCH Update_invitation_action qp pk of
        Inl r \<Rightarrow> (r, d)
      | Inr proj \<Rightarrow>
          (case objects_get (\<lambda>i. inv_id i = invitation_id \<and> inv_project i = p_id proj \<and>
                                 inv_status i = PENDING) (invitations d) of
             DoesNotExist \<Rightarrow> (Response 404 ''Invitation not found or already accepted'', d)
           | MultipleObjectsReturned \<Rightarrow> (server_error, d)
           | Got invitation \<Rightarrow>
               (let inv1 = (case new_role of Some r \<Rightarrow> invitation\<lparr>inv_role := r\<rparr>
                            | None \<Rightarrow> invitation);
                    inv2 = (case new_message of Some m \<Rightarrow> inv1\<lparr>inv_message := m\<rparr>
                            | None \<Rightarrow> inv1)
                in (Response 200 ''Invitation updated successfully'', save_invitation inv2 d))))"

subsection \<open>Inviting members\<close>

record invite_request =
  ir_emails :: "string list"
  ir_role :: "proj_role option"
  ir_message :: "string option"

definition ROLE_CHOICES :: "proj_role list" where
  "ROLE_CHOICES = [LEAD, DEVELOPER, TESTER, ANALYST, DESIGNER]"

text \<open>
  \<open>InviteMembersSerializer.validate_emails\<close>: keep the first spelling of every address,
  comparing lower-cased.
\<close>

fun validate_emails :: "string list \<Rightarrow> string list \<Rightarrow> string list" where
  "validate_emails [] seen = []"
| "validate_emails (email # emails) seen =
     (if lower email \<in> set seen then validate_emails emails seen
      else email # validate_emails emails (lower email # seen))"

fun join_comma :: "string list \<Rightarrow> string" where
  "join_comma [] = []"
| "join_comma [x] = x"
| "join_comma (x # y # ys) = x @ '', '' @ join_comma (y # ys)"

text \<open>
  The serializer's field checks followed by \<open>InviteMembersSerializer.validate\<close>.  The format
  check of each address is the framework's and is not modelled.
\<close>

definition validate_invite ::
  "db \<Rightarrow> project \<Rightarrow> invite_request \<Rightarrow> (string list \<times> proj_role \<times> string) outcome" where
  "validate_invite d proj req =
     (let role = (case ir_role req of Some r \<Rightarrow> r | None \<Rightarrow> DEVELOPER);
          message = (case ir_message req of Some m \<Rightarrow> m | None \<Rightarrow> [])
      in
      if ir_emails req = [] then ValidationError ''This list may not be empty.''
      else if role \<notin> set ROLE_CHOICES then ValidationError ''Not a valid choice.''
      else if length message > 500
        then ValidationError ''Ensure this field has no more than 500 characters.''
      else
        let emails = validate_emails (ir_emails req) [] in
        if emails = [] then ValidationError ''At least one email is required.''
        else
          let existing_members =
                concat (map (\<lambda>m. map u_email
                          (filter (\<lambda>u. u_id u = pm_user m \<and>
                                        list_ex (col_eq d (u_email u)) emails) (users d)))
                  (filter (\<lambda>m. pm_project m = p_id proj \<and> pm_is_active m) (members d)))
          in
          if existing_members \<noteq> []
          then ValidationError (''Following emails are already project members: ''
                                  @ join_comma existing_members)
          else
            let pending_invitations =
                  map inv_email
                    (filter (\<lambda>i. inv_project i = p_id proj \<and>
                                  list_ex (col_eq d (inv_email i)) emails \<and>
                                  inv_status i = PENDING) (invitations d))
            in
            if pending_invitations \<noteq> []
            then ValidationError (''Following emails already have pending invitations: ''
                                    @ join_comma pending_invitations)
            else Ok (emails, role, message))"

text \<open>
  \<open>ProjectInvitation.objects.create(...)\<close> of apps/projects/models.py: fresh primary key
  and token, status PENDING, expiry seven days from now (set by \<open>save\<close>).
\<close>

definition create_invitation ::
  "int \<Rightarrow> nat \<Rightarrow> nat \<Rightarrow> proj_role \<Rightarrow> string \<Rightarrow> string \<Rightarrow> db \<Rightarrow> db" where
  "create_invitation now proj inviter role message email d =
     d\<lparr>invitations := invitations d @
        [\<lparr>inv_id = fresh (map inv_id (invitations d)), inv_project = proj,
          inv_invited_by = inviter, inv_email = email, inv_role = role,
          inv_token = fresh (map inv_token (invitations d)), inv_status = PENDING,
          inv_message = message, inv_expires_at = now + SEVEN_DAYS,
          inv_accepted_at = None\<rparr>]\<rparr>"

text \<open>\<open>ProjectViewSet.invite_members\<close>\<close>

definition invite_members ::
  "int \<Rightarrow> db \<Rightarrow> user \<Rightarrow> query_params \<Rightarrow> nat \<Rightarrow> invite_request \<Rightarrow> response \<times> db" where
  "invite_members now d usr qp pk req =
     (case get_object d usr POST Invite_members_action qp pk of
        Inl r \<Rightarrow> (r, d)
      | Inr proj \<Rightarrow>
          (case validate_invite d proj req of
             ValidationError msg \<Rightarrow> (Response 400 msg, d)
           | Raised e \<Rightarrow> (server_error, d)
           | Ok (emails, role, message) \<Rightarrow>
               (Response 201 ''Successfully invited'',
                fold (\<lambda>email. create_invitation now (p_id proj) (u_id usr) role message
                                 (lower email)) emails d)))"

section \<open>Invitation workflow of ProjectInvitationViewSet (invitation_views.py, invitation_models.py)\<close>

text \<open>
  The second invitation model maps to the same table \<open>project_invitations\<close>; its statuses
  are PENDING, ACCEPTED, EXPIRED and DECLINED.
\<close>

definition is_expired_alt :: "int \<Rightarrow> project_invitation \<Rightarrow> bool" where
  "is_expired_alt now invt = (now > inv_expires_at invt \<and> inv_status invt = PENDING)"

text \<open>
  \<open>ProjectInvitation.accept(user)\<close> of invitation_models.py; adding the user to the project
  is commented out in the source.
\<close>

definition accept :: "int \<Rightarrow> project_invitation \<Rightarrow> user \<Rightarrow> db \<Rightarrow> bool \<times> db" where
  "accept now invt usr d =
     (if is_expired_alt now invt
      then (False, save_invitation (invt\<lparr>inv_status := EXPIRED\<rparr>) d)
      else (True, save_invitation (invt\<lparr>inv_status := ACCEPTED, inv_accepted_at := Some now\<rparr>) d))"

text \<open>\<open>ProjectInvitationViewSet.accept_invitation\<close>\<close>

definition accept_invitation_alt :: "int \<Rightarrow> db \<Rightarrow> user \<Rightarrow> nat \<Rightarrow> response \<times> db" where
  "accept_invitation_alt now d request_user token =
     (case get_invitation_by_token d token of
        DoesNotExist \<Rightarrow> (Response 404 ''Invalid invitation token'', d)
      | MultipleObjectsReturned \<Rightarrow> (server_error, d)
      | Got invitation \<Rightarrow>
          if lower (inv_email invitation) \<noteq> lower (u_email request_user)
          then (Response 403 ''This invitation is not for you'', d)
          else (case accept now invitation request_user d of
                  (True, d1) \<Rightarrow> (Response 200 ''Invitation accepted successfully'', d1)
                | (False, d1) \<Rightarrow> (Response 400 ''Invitation has expired'', d1)))"

record send_request =
  sr_project :: nat
  sr_email :: string
  sr_role :: "proj_role option"
  sr_message :: "string option"

text \<open>
  \<open>ProjectInvitationViewSet.send_invitation\<close>.  The primary-key default of this model,
  \<open>uuid.uuid4().hex\<close>, is evaluated once when the module is loaded: \<open>default_id\<close> is that
  value, and the database refuses a second row with it.
\<close>

definition send_invitation ::
  "int \<Rightarrow> nat \<Rightarrow> db \<Rightarrow> user \<Rightarrow> send_request \<Rightarrow> response \<times> db" where
  "send_invitation now default_id d usr req =
     (let role = (case sr_role req of Some r \<Rightarrow> r | None \<Rightarrow> MEMBER);
          message = (case sr_message req of Some m \<Rightarrow> m | None \<Rightarrow> []);
          email = lower (sr_email req)
      in
      if role \<notin> {MEMBER, VIEWER} then (Response 400 ''Not a valid choice.'', d)
      else
        case objects_get (\<lambda>p. p_id p = sr_project req) (projects d) of
          DoesNotExist \<Rightarrow> (Response 404 ''Project not found'', d)
        | MultipleObjectsReturned \<Rightarrow> (server_error, d)
        | Got proj \<Rightarrow>
            if u_role usr \<notin> {ADMIN, MANAGER}
            then (Response 403 ''Only managers can send invitations'', d)
            else if filter (\<lambda>i. inv_project i = p_id proj \<and> col_eq d (inv_email i) email \<and>
                                inv_status i = PENDING) (invitations d) \<noteq> []
            then (Response 400 ''Invitation already sent to this email'', d)
            else if default_id \<in> set (map inv_id (invitations d))
            then (server_error, d)
            else (Response 201 ''Created'',
                  d\<lparr>invitations := invitations d @
                     [\<lparr>inv_id = default_id, inv_project = p_id proj,
                       inv_invited_by = u_id usr, inv_email = email, inv_role = role,
                       inv_token = fresh (map inv_token (invitations d)),
                       inv_status = PENDING, inv_message = message,
                       inv_expires_at = now + SEVEN_DAYS, inv_accepted_at = None\<rparr>]\<rparr>))"

section \<open>Operations on invitations\<close>

text \<open>
  The requests of ProjectViewSet that write the invitation table, and the handler each is
  routed to.
\<close>

datatype inv_op =
    Accept_op user nat
  | Reject_op user nat
  | Resend_op user query_params nat nat
  | Update_op user query_params nat nat "proj_role option" "string option"
  | Delete_op user query_params nat nat
  | Invite_op user query_params nat invite_request

fun dispatch :: "int \<Rightarrow> inv_op \<Rightarrow> db \<Rightarrow> response \<times> db" where
  "dispatch now (Accept_op usr token) d = accept_invitation now d usr token"
| "dispatch now (Reject_op usr token) d = reject_invitation now d usr token"
| "dispatch now (Resend_op usr qp pk iid) d = resend_invitation now d usr qp pk iid"
| "dispatch now (Update_op usr qp pk iid r m) d = update_invitation d usr qp pk iid r m"
| "dispatch now (Delete_op usr qp pk iid) d = delete_invitation d usr qp pk iid"
| "dispatch now (Invite_op usr qp pk req) d = invite_members now d usr qp pk req"

definition terminal :: "inv_status \<Rightarrow> bool" where
  "terminal s = (s = ACCEPTED \<or> s = REJECTED \<or> s = EXPIRED)"

text \<open>
  Every row of the first table that is not PENDING is, if a row with its primary key is
  still in the second table, that same row.
\<close>

definition settled_kept :: "project_invitation list \<Rightarrow> project_invitation list \<Rightarrow> bool" where
  "settled_kept xs ys =
     list_all (\<lambda>i. inv_status i \<noteq> PENDING \<longrightarrow>
                 list_all (\<lambda>i'. inv_id i' = inv_id i \<longrightarrow> i' = i) ys) xs"

section \<open>Deleting a project (ProjectViewSet.destroy)\<close>

text \<open>
  \<open>instance.delete()\<close>: the project row goes, and with it (\<open>on_delete=CASCADE\<close>) its member
  rows, invitations and tasks; the \<open>post_delete\<close> receiver runs for every deleted row.
\<close>

definition delete_project :: "project \<Rightarrow> db \<Rightarrow> db" where
  "delete_project proj d =
     (let gone_tasks = filter (\<lambda>t. t_project t = p_id proj) (tasks d);
          gone_members = filter (\<lambda>m. pm_project m = p_id proj) (members d);
          d1 = d\<lparr>projects := filter (\<lambda>p. p_id p \<noteq> p_id proj) (projects d),
                 members := filter (\<lambda>m. pm_project m \<noteq> p_id proj) (members d),
                 invitations := filter (\<lambda>i. inv_project i \<noteq> p_id proj) (invitations d),
                 tasks := filter (\<lambda>t. t_project t \<noteq> p_id proj) (tasks d)\<rparr>;
          d2 = fold (\<lambda>t. log_model_delete Task_model (instance_of (t_id t))) gone_tasks d1;
          d3 = fold (\<lambda>m. log_model_delete ProjectMember_model (instance_of (pm_id m)))
                 gone_members d2
      in log_model_delete Project_model (instance_of (p_id proj)) d3)"

definition destroy :: "db \<Rightarrow> user \<Rightarrow> query_params \<Rightarrow> nat \<Rightarrow> response \<times> db" where
  "destroy d usr qp pk =
     (case get_object d usr DELETE Destroy_action qp pk of
        Inl r \<Rightarrow> (r, d)
      | Inr obj \<Rightarrow>
          if filter (\<lambda>t. t_project t = p_id obj) (tasks d) \<noteq> []
          then (Response 400 ''Cannot delete project with existing tasks'', d)
          else (Response 204 ''Project deleted successfully'', delete_project obj d))"

text \<open>At most one PENDING invitation per (project, email).\<close>

definition pending_unique :: "db \<Rightarrow> bool" where
  "pending_unique d =
     distinct (map (\<lambda>i. (inv_project i, inv_email i))
                (filter (\<lambda>i. inv_status i = PENDING) (invitations d)))"

section \<open>Creating a project (ProjectCreateSerializer, ProjectViewSet.create)\<close>

text \<open>Decimal rendering of the counter in \<open>f"{base_code}{counter}"\<close>.\<close>

fun str_nat :: "nat \<Rightarrow> string" where
  "str_nat n = (if n < 10 then [char_of (48 + n)]
                else str_nat (n div 10) @ [char_of (48 + n mod 10)])"

declare str_nat.simps [simp del]

text \<open>
  \<open>re.findall(r'\b\w', s)\<close> on ASCII text: the first character of every maximal run of
  word characters (letters, digits, underscore).
\<close>

definition is_word_char :: "char \<Rightarrow> bool" where
  "is_word_char c = (let n = (of_char c :: nat) in
     (48 \<le> n \<and> n \<le> 57) \<or> (65 \<le> n \<and> n \<le> 90) \<or> (97 \<le> n \<and> n \<le> 122) \<or> n = 95)"

fun initials :: "bool \<Rightarrow> string \<Rightarrow> string" where
  "initials in_word [] = []"
| "initials in_word (c # cs) =
     (if is_word_char c
      then (if in_word then initials True cs else c # initials True cs)
      else initials False cs)"

definition base_code_of :: "string \<Rightarrow> string" where
  "base_code_of name =
     (let words = take 10 (initials False (upper name))
      in if words = [] then ''PROJ'' else words)"

text \<open>
  The loop \<open>while Project.objects.filter(code=code).exists(): code = f"{base_code}{counter}";
  counter += 1\<close>; \<open>None\<close> stands for a loop that does not end.
\<close>

partial_function (option) unique_code ::
  "(string \<Rightarrow> bool) \<Rightarrow> string \<Rightarrow> string \<Rightarrow> nat \<Rightarrow> string option" where
  "unique_code taken base_code code counter =
     (if taken code then unique_code taken base_code (base_code @ str_nat counter) (Suc counter)
      else Some code)"

declare unique_code.simps [code]

text \<open>The validated request body; \<open>None\<close> is a field the request leaves out.\<close>

record project_data =
  pd_name :: string
  pd_code :: "string option"
  pd_department :: nat
  pd_manager :: "nat option"
  pd_status :: "string option"
  pd_is_active :: "bool option"
  pd_start_date :: int
  pd_end_date :: int

text \<open>
  \<open>validate_code\<close> (run when the request carries a code) and \<open>validate\<close> of
  ProjectCreateSerializer.
\<close>

definition validate_create :: "db \<Rightarrow> project_data \<Rightarrow> project_data outcome" where
  "validate_create d data =
     (case pd_code data of
        Some c \<Rightarrow>
          if list_ex (\<lambda>p. col_eq d (p_code p) (upper c)) (projects d)
          then ValidationError ''Project code must be unique.''
          else if pd_start_date data > pd_end_date data
          then ValidationError ''End date must be after start date.''
          else Ok (data\<lparr>pd_code := Some (upper c)\<rparr>)
      | None \<Rightarrow>
          if pd_start_date data > pd_end_date data
          then ValidationError ''End date must be after start date.''
          else Ok data)"

text \<open>\<open>uuid.uuid4()\<close> for a new project: an identifier no table refers to.\<close>

definition fresh_project_id :: "db \<Rightarrow> nat" where
  "fresh_project_id d =
     fresh (map p_id (projects d) @ map pm_project (members d) @
            map inv_project (invitations d) @ map t_project (tasks d))"

text \<open>
  \<open>ProjectCreateSerializer.create\<close>.  The rows written before an exception stay in the
  database, so the database is returned beside the result.
\<close>

definition serializer_create ::
  "db \<Rightarrow> user option \<Rightarrow> project_data \<Rightarrow> ((exn + project) \<times> db) option" where
  "serializer_create d usr data =
     (let manager = (case pd_manager data of
                       Some m \<Rightarrow> Some m
                     | None \<Rightarrow> (case usr of Some u \<Rightarrow> Some (u_id u) | None \<Rightarrow> None));
          generated = (case pd_code data of None \<Rightarrow> True | Some c \<Rightarrow> c = []);
          code_opt = (if generated
                      then unique_code (\<lambda>c. list_ex (\<lambda>p. col_eq d (p_code p) c) (projects d))
                             (base_code_of (pd_name data)) (base_code_of (pd_name data)) 1
                      else (case pd_code data of Some c \<Rightarrow> Some (upper c) | None \<Rightarrow> None))
      in case code_opt of
           None \<Rightarrow> None
         | Some code \<Rightarrow>
             Some (if list_ex (\<lambda>p. col_eq d (p_code p) code) (projects d)
                   then (Inl IntegrityError, d)
                   else
                     let new_id = fresh_project_id d;
                         proj = \<lparr>p_id = new_id, p_name = pd_name data, p_code = code,
                                  p_department = pd_department data, p_manager = manager,
                                  p_status = (case pd_status data of Some s \<Rightarrow> s
                                              | None \<Rightarrow> ''PLANNING''),
                                  p_is_active = (case pd_is_active data of Some a \<Rightarrow> a
                                                 | None \<Rightarrow> True),
                                  p_start_date = pd_start_date data,
                                  p_end_date = pd_end_date data\<rparr>;
                         d1 = log_model_save Project_model (instance_of new_id) True None
                                (d\<lparr>projects := projects d @ [proj]\<rparr>)
                     in case usr of
                          None \<Rightarrow> (Inr proj, d1)
                        | Some u \<Rightarrow>
                            (case create_project_member new_id (u_id u) LEAD True d1 of
                               Inl e \<Rightarrow> (Inl e, d1)
                             | Inr d2 \<Rightarrow> (Inr proj, d2))))"

text \<open>
  \<open>ProjectViewSet.create\<close>; the permission classes admit authenticated users only, so the
  serializer always finds a user in its context.
\<close>

definition create_project :: "db \<Rightarrow> user \<Rightarrow> project_data \<Rightarrow> (response \<times> db) option" where
  "create_project d usr data =
     (case validate_create d data of
        ValidationError msg \<Rightarrow> Some (Response 400 msg, d)
      | Raised e \<Rightarrow> Some (server_error, d)
      | Ok validated_data \<Rightarrow>
          (case serializer_create d (Some usr) validated_data of
             None \<Rightarrow> None
           | Some (Inl e, d1) \<Rightarrow> Some (server_error, d1)
           | Some (Inr proj, d1) \<Rightarrow> Some (Response 201 ''Project created successfully'', d1)))"

text \<open>The two conditions the specification's visibility rule is built from.\<close>

definition is_manager :: "user \<Rightarrow> project \<Rightarrow> bool" where
  "is_manager u p = (p_manager p = Some (u_id u))"

definition active_member :: "db \<Rightarrow> user \<Rightarrow> project \<Rightarrow> bool" where
  "active_member d u p =
     list_ex (\<lambda>m. pm_project m = p_id p \<and> pm_user m = u_id u \<and> pm_is_active m) (members d)"

section \<open>Example data\<close>

definition root_user :: user where
  "root_user = \<lparr>u_id = 1, u_email = ''root@x.com'', u_role = ADMIN\<rparr>"

definition alice :: user where
  "alice = \<lparr>u_id = 2, u_email = ''alice@x.com'', u_role = EMPLOYEE\<rparr>"

definition bob :: user where
  "bob = \<lparr>u_id = 3, u_email = ''b@x.com'', u_role = EMPLOYEE\<rparr>"

definition carol :: user where
  "carol = \<lparr>u_id = 4, u_email = ''carol@x.com'', u_role = EMPLOYEE\<rparr>"

definition project_x :: project where
  "project_x = \<lparr>p_id = 10, p_name = ''Project X'', p_code = ''PX'', p_department = 1,
     p_manager = Some 4, p_status = ''ACTIVE'', p_is_active = True,
     p_start_date = 0, p_end_date = 100\<rparr>"

definition alice_lead :: project_member where
  "alice_lead = \<lparr>pm_id = 20, pm_project = 10, pm_user = 2, pm_role = LEAD, pm_is_active = True\<rparr>"

definition bob_inactive :: project_member where
  "bob_inactive = \<lparr>pm_id = 21, pm_project = 10, pm_user = 3, pm_role = DEVELOPER,
     pm_is_active = False\<rparr>"

text \<open>
  Project X is managed by carol, led by alice; bob's membership row has been deactivated;
  the administrator root has no membership row.
\<close>

definition db_x :: db where
  "db_x = \<lparr>collation = CaseInsensitive, users = [root_user, alice, bob, carol],
     projects = [project_x], members = [alice_lead, bob_inactive], invitations = [],
     tasks = [], audit_logs = []\<rparr>"

text \<open>
  Two invitations to project X whose expiry (time 1000) has passed at time 2000: one for
  bob, still pending, and one for carol, accepted at time 500.
\<close>

definition inv_bob :: project_invitation where
  "inv_bob = \<lparr>inv_id = 30, inv_project = 10, inv_invited_by = 2, inv_email = ''b@x.com'',
     inv_role = DEVELOPER, inv_token = 500, inv_status = PENDING, inv_message = [],
     inv_expires_at = 1000, inv_accepted_at = None\<rparr>"

definition inv_carol :: project_invitation where
  "inv_carol = \<lparr>inv_id = 31, inv_project = 10, inv_invited_by = 2,
     inv_email = ''carol@x.com'', inv_role = DEVELOPER, inv_token = 501,
     inv_status = ACCEPTED, inv_message = [], inv_expires_at = 1000,
     inv_accepted_at = Some 500\<rparr>"

definition db_inv :: db where
  "db_inv = db_x\<lparr>invitations := [inv_bob, inv_carol]\<rparr>"

text \<open>
  The same invitations in a database where bob has no membership row, and a second
  account whose address differs from bob's invitation in letter case only.
\<close>

definition db_inv2 :: db where
  "db_inv2 = db_inv\<lparr>members := [alice_lead]\<rparr>"

definition bob_upper :: user where
  "bob_upper = \<lparr>u_id = 5, u_email = ''B@x.com'', u_role = EMPLOYEE\<rparr>"

text \<open>Project X with one task, and a second project Y, led by alice, without tasks.\<close>

definition project_y :: project where
  "project_y = \<lparr>p_id = 11, p_name = ''Project Y'', p_code = ''PY'', p_department = 1,
     p_manager = Some 2, p_status = ''PLANNING'', p_is_active = True,
     p_start_date = 0, p_end_date = 100\<rparr>"

definition alice_lead_y :: project_member where
  "alice_lead_y = \<lparr>pm_id = 22, pm_project = 11, pm_user = 2, pm_role = LEAD,
     pm_is_active = True\<rparr>"

definition db_tasks :: db where
  "db_tasks = db_x\<lparr>projects := [project_x, project_y],
     members := [alice_lead, bob_inactive, alice_lead_y],
     tasks := [\<lparr>t_id = 40, t_project = 10\<rparr>]\<rparr>"

text \<open>The request body bob sends to create a project without giving a code.\<close>

definition new_project_data :: project_data where
  "new_project_data = \<lparr>pd_name = ''Project x-ray'', pd_code = None, pd_department = 1,
     pd_manager = None, pd_status = None, pd_is_active = None, pd_start_date = 5,
     pd_end_date = 50\<rparr>"

text \<open>The database of the two invitations under a collation that compares exactly.\<close>

definition db_cs :: db where
  "db_cs = db_inv\<lparr>collation := CaseSensitive\<rparr>"


text \<open>The database after bob's request: project 11 with bob as its only member, a LEAD.\<close>

definition db_x_created :: db where
  "db_x_created = db_x\<lparr>
     projects := [project_x,
       \<lparr>p_id = 11, p_name = ''Project x-ray'', p_code = ''PXR'', p_department = 1,
         p_manager = Some 3, p_status = ''PLANNING'', p_is_active = True,
         p_start_date = 5, p_end_date = 50\<rparr>],
     members := [alice_lead, bob_inactive,
       \<lparr>pm_id = 22, pm_project = 11, pm_user = 3, pm_role = LEAD, pm_is_active = True\<rparr>]\<rparr>"

section \<open>Membership lookups\<close>

lemma filter_key_le1:
  "distinct (map f xs) \<Longrightarrow> length (filter (\<lambda>x. f x = k \<and> Q x) xs) \<le> 1"
proof (induction xs)
  case Nil
  then show ?case by simp
next
  case (Cons a xs)
  show ?case
  proof (cases "f a = k")
    case True
    with Cons.prems have "\<forall>x\<in>set xs. f x \<noteq> k" by (auto simp: image_iff)
    then have "filter (\<lambda>x. f x = k \<and> Q x) xs = []" by (simp add: filter_empty_conv)
    then show ?thesis by simp
  next
    case False
    with Cons show ?thesis by simp
  qed
qed

lemma get_active_membership_cases:
  assumes "members_unique d"
  shows "(get_active_membership d u p = DoesNotExist \<and>
            \<not> (\<exists>m\<in>set (members d). pm_project m = p_id p \<and> pm_user m = u_id u \<and> pm_is_active m))
       \<or> (\<exists>m. get_active_membership d u p = Got m \<and> m \<in> set (members d) \<and>
             pm_project m = p_id p \<and> pm_user m = u_id u \<and> pm_is_active m \<and>
             (\<forall>m'\<in>set (members d). pm_project m' = p_id p \<and> pm_user m' = u_id u \<and> pm_is_active m'
                 \<longrightarrow> m' = m))"
proof -
  let ?P = "\<lambda>m. pm_project m = p_id p \<and> pm_user m = u_id u \<and> pm_is_active m"
  let ?f = "\<lambda>m. (pm_project m, pm_user m)"
  have eq: "filter ?P (members d) = filter (\<lambda>m. ?f m = (p_id p, u_id u) \<and> pm_is_active m) (members d)"
    by (rule filter_cong) auto
  have le: "length (filter ?P (members d)) \<le> 1"
    unfolding eq using assms unfolding members_unique_def by (rule filter_key_le1)
  show ?thesis
  proof (cases "filter ?P (members d)")
    case Nil
    then have "\<not> (\<exists>m\<in>set (members d). ?P m)" by (simp add: filter_empty_conv)
    moreover from Nil have "get_active_membership d u p = DoesNotExist"
      by (simp add: get_active_membership_def objects_get_def)
    ultimately show ?thesis by blast
  next
    case (Cons m ms)
    with le have ms: "ms = []" by simp
    from Cons ms have one: "filter ?P (members d) = [m]" by simp
    then have g: "get_active_membership d u p = Got m"
      by (simp add: get_active_membership_def objects_get_def)
    have "set (filter ?P (members d)) = {m}" using one by simp
    then have mem: "\<And>x. (x \<in> set (members d) \<and> ?P x) = (x = m)" by auto
    from mem[of m] have "m \<in> set (members d)" "?P m" by auto
    moreover have "\<forall>m'\<in>set (members d). ?P m' \<longrightarrow> m' = m" using mem by blast
    ultimately show ?thesis using g by blast
  qed
qed

lemma active_member_iff:
  "active_member d u p = (\<exists>m\<in>set (members d). pm_project m = p_id p \<and> pm_user m = u_id u \<and> pm_is_active m)"
  by (simp add: active_member_def list_ex_iff)

lemma can_user_access_project_iff:
  "can_user_access_project d u p = (u_role u = ADMIN \<or> active_member d u p)"
proof -
  have "(filter (\<lambda>m. pm_project m = p_id p \<and> pm_user m = u_id u \<and> pm_is_active m)
           (members d) \<noteq> []) = active_member d u p"
    unfolding active_member_iff filter_empty_conv by blast
  then show ?thesis by (simp add: can_user_access_project_def)
qed

lemma has_object_permission_safe:
  assumes "members_unique d" and "method \<in> set SAFE_METHODS"
  shows "has_object_permission d u method action p = Inr (u_role u = ADMIN \<or> active_member d u p)"
proof (cases "u_role u = ADMIN")
  case True
  then show ?thesis by (simp add: has_object_permission_def)
next
  case False
  from get_active_membership_cases[OF assms(1), of u p] show ?thesis
  proof (elim disjE conjE exE)
    assume "get_active_membership d u p = DoesNotExist"
      and "\<not> (\<exists>m\<in>set (members d). pm_project m = p_id p \<and> pm_user m = u_id u \<and> pm_is_active m)"
    then show ?thesis using False
      by (simp add: has_object_permission_def active_member_iff)
  next
    fix m
    assume "get_active_membership d u p = Got m" and "m \<in> set (members d)"
      and "pm_project m = p_id p" and "pm_user m = u_id u" and "pm_is_active m"
    then have "active_member d u p" "get_active_membership d u p = Got m"
      unfolding active_member_iff by blast+
    then show ?thesis using False assms(2)
      by (simp add: has_object_permission_def)
  qed
qed

section \<open>Visibility and management checks\<close>

text \<open>
  Claim C2, as the code has it: \<open>can_user_access_project\<close> grants access exactly to a
  system administrator or a user with an active membership row of the project, and so does
  \<open>ProjectPermission.has_object_permission\<close> for a safe (read) method.  Being the project's
  manager does not enter the check.
\<close>

theorem can_view_project_admin_or_active_member:
  "can_user_access_project d u p = (u_role u = ADMIN \<or> active_member d u p) \<and>
   (members_unique d \<longrightarrow> method \<in> set SAFE_METHODS \<longrightarrow>
      has_object_permission d u method action p = Inr (u_role u = ADMIN \<or> active_member d u p))"
  using can_user_access_project_iff has_object_permission_safe by blast

theorem can_view_project_admin_or_active_member_witness:
  "members_unique db_x \<and> GET \<in> set SAFE_METHODS \<and>
   can_user_access_project db_x alice project_x \<and>
   has_object_permission db_x alice GET Retrieve_action project_x = Inr True \<and>
   is_manager carol project_x \<and>
   \<not> can_user_access_project db_x carol project_x \<and>
   has_object_permission db_x carol GET Retrieve_action project_x = Inr False"
proof -
  have h1: "members_unique db_x" by code_simp
  have h2: "GET \<in> set SAFE_METHODS" by code_simp
  have a: "active_member db_x alice project_x" by code_simp
  have c: "\<not> active_member db_x carol project_x" "u_role carol \<noteq> ADMIN" "is_manager carol project_x"
    by code_simp+
  show ?thesis
    using h1 h2 a c
      can_view_project_admin_or_active_member[of db_x alice project_x GET Retrieve_action]
      can_view_project_admin_or_active_member[of db_x carol project_x GET Retrieve_action]
    by simp
qed

text \<open>
  The administrator root, who neither manages project X nor has a membership row in it,
  is granted read access by both checks.
\<close>

theorem can_view_project_counterexample:
  "can_user_access_project db_x root_user project_x \<and>
   has_object_permission db_x root_user GET Retrieve_action project_x = Inr True \<and>
   \<not> is_manager root_user project_x \<and> \<not> active_member db_x root_user project_x"
  by code_simp

lemma get_user_project_role_lead:
  assumes "members_unique d"
  shows "(get_user_project_role d u p = Inr (Some LEAD)) =
         (\<exists>m. get_active_membership d u p = Got m \<and> pm_role m = LEAD)"
  by (auto simp: get_user_project_role_def split: get_result.splits)

lemma can_user_manage_project_iff:
  assumes "members_unique d"
  shows "can_user_manage_project d u p =
           Inr (u_role u = ADMIN \<or> get_user_project_role d u p = Inr (Some LEAD))"
  using get_active_membership_cases[OF assms, of u p]
  by (cases "u_role u = ADMIN")
    (auto simp: can_user_manage_project_def get_user_project_role_def)

lemma has_object_permission_modify:
  assumes "members_unique d" and "method \<notin> set SAFE_METHODS"
    and "action \<in> {Update_action, Partial_update_action, Destroy_action}"
  shows "has_object_permission d u method action p =
           Inr (u_role u = ADMIN \<or> get_user_project_role d u p = Inr (Some LEAD))"
  using get_active_membership_cases[OF assms(1), of u p] assms(2,3)
  by (auto simp: has_object_permission_def get_user_project_role_def)

text \<open>
  Claim C3, as the code has it: under the uniqueness constraint on (project, user),
  \<open>can_user_manage_project\<close> holds exactly for a system administrator or a user whose
  active project role is LEAD, and \<open>has_object_permission\<close> decides update, partial update
  and destroy requests the same way.
\<close>

theorem can_manage_project_admin_or_lead:
  "members_unique d \<longrightarrow>
     can_user_manage_project d u p =
       Inr (u_role u = ADMIN \<or> get_user_project_role d u p = Inr (Some LEAD)) \<and>
     (method \<notin> set SAFE_METHODS \<longrightarrow>
      action \<in> {Update_action, Partial_update_action, Destroy_action} \<longrightarrow>
        has_object_permission d u method action p =
          Inr (u_role u = ADMIN \<or> get_user_project_role d u p = Inr (Some LEAD)))"
  using can_user_manage_project_iff has_object_permission_modify by blast

theorem can_manage_project_admin_or_lead_witness:
  "members_unique db_x \<and> PUT \<notin> set SAFE_METHODS \<and>
   Update_action \<in> {Update_action, Partial_update_action, Destroy_action} \<and>
   get_user_project_role db_x alice project_x = Inr (Some LEAD) \<and>
   can_user_manage_project db_x alice project_x = Inr True \<and>
   has_object_permission db_x alice PUT Update_action project_x = Inr True \<and>
   can_user_manage_project db_x carol project_x = Inr False"
proof -
  have h1: "members_unique db_x" by code_simp
  have h2: "PUT \<notin> set SAFE_METHODS" by code_simp
  have a: "get_user_project_role db_x alice project_x = Inr (Some LEAD)" by code_simp
  have c: "get_user_project_role db_x carol project_x = Inr None" "u_role carol \<noteq> ADMIN"
    by code_simp+
  show ?thesis
    using h1 h2 a c
      can_manage_project_admin_or_lead[of db_x alice project_x PUT Update_action]
      can_manage_project_admin_or_lead[of db_x carol project_x PUT Update_action]
    by simp
qed

text \<open>
  The administrator root has no role in project X and is still granted management rights.
\<close>

theorem can_manage_project_counterexample:
  "can_user_manage_project db_x root_user project_x = Inr True \<and>
   has_object_permission db_x root_user PUT Update_action project_x = Inr True \<and>
   get_user_project_role db_x root_user project_x = Inr None"
  by code_simp

section \<open>Project listing\<close>

lemma listVisibleProjects_iff:
  "p \<in> set (listVisibleProjects d usr) =
     (p \<in> set (projects d) \<and>
      (is_manager usr p \<or> (\<exists>m\<in>set (members d). pm_project m = p_id p \<and> pm_user m = u_id usr)))"
  by (simp add: listVisibleProjects_def get_queryset_def no_params_def is_manager_def
      list_ex_iff)

text \<open>
  Claim C1 at a failing input: bob's membership row in project X is inactive and he is not
  its manager, so the claim keeps project X out of his listing (and the object permission
  refuses him the project), yet the listing filter, which does not read \<open>is_active\<close>,
  returns it.
\<close>

theorem listVisibleProjects_inactive_member:
  "project_x \<in> set (listVisibleProjects db_x bob) \<and>
   \<not> is_manager bob project_x \<and> \<not> active_member db_x bob project_x \<and>
   has_object_permission db_x bob GET Retrieve_action project_x = Inr False"
  by code_simp

section \<open>Audit recorder\<close>

lemma log_model_delete_audited:
  "sender \<in> set AUDITED_MODELS \<Longrightarrow>
   audit_logs (log_model_delete sender inst d) = audit_logs d @
     [\<lparr>al_user = i_current_user inst, al_action = ''DELETE'', al_model = sender,
       al_object_id = i_pk inst, al_changes = Marker ''deleted''\<rparr>]"
  by (simp add: log_model_delete_def AuditLog_log_def)

text \<open>
  Claim C9 on the code: when \<open>post_save\<close> reports a creation, \<open>log_model_save\<close> writes no
  audit record at all, for audited and unaudited senders alike; the database is returned
  as it was.
\<close>

theorem log_model_save_created_writes_nothing:
  "log_model_save sender inst True old d = d"
  by (simp add: log_model_save_def)

section \<open>Invitation workflow\<close>

lemma save_invitation_other_tables:
  "members (save_invitation i d) = members d"
  "users (save_invitation i d) = users d"
  "projects (save_invitation i d) = projects d"
  "tasks (save_invitation i d) = tasks d"
  "audit_logs (save_invitation i d) = audit_logs d"
  "collation (save_invitation i d) = collation d"
  by (simp_all add: save_invitation_def)

lemma map_replace_absent:
  "\<forall>i\<in>set xs. inv_id i \<noteq> k \<Longrightarrow> map (\<lambda>i. if inv_id i = k then r else i) xs = xs"
  by (induction xs) auto

lemma filter_token_after_replace:
  assumes "distinct (map inv_id xs)"
    and "filter (\<lambda>i. inv_token i = t) xs = [old]"
    and "inv_token new = t" and "inv_id new = inv_id old"
  shows "filter (\<lambda>i. inv_token i = t) (map (\<lambda>i. if inv_id i = inv_id old then new else i) xs) = [new]"
  using assms(1,2)
proof (induction xs)
  case Nil
  then show ?case by simp
next
  case (Cons a xs)
  show ?case
  proof (cases "inv_token a = t")
    case True
    with Cons.prems(2) have a: "a = old" and rest: "filter (\<lambda>i. inv_token i = t) xs = []"
      by simp_all
    from Cons.prems(1) a have "\<forall>i\<in>set xs. inv_id i \<noteq> inv_id old" by (auto simp: image_iff)
    then have "map (\<lambda>i. if inv_id i = inv_id old then new else i) xs = xs"
      by (rule map_replace_absent)
    then show ?thesis using a rest assms(3) by simp
  next
    case False
    with Cons.prems(2) have f: "filter (\<lambda>i. inv_token i = t) xs = [old]" by simp
    then have "old \<in> set (filter (\<lambda>i. inv_token i = t) xs)" by simp
    then have "old \<in> set xs" by simp
    with Cons.prems(1) have "inv_id a \<noteq> inv_id old" by (auto simp: image_iff)
    moreover from Cons.prems(1) have "distinct (map inv_id xs)" by simp
    ultimately show ?thesis using Cons.IH f False by simp
  qed
qed

lemma get_by_token_Got:
  "get_invitation_by_token d token = Got i \<Longrightarrow>
   filter (\<lambda>i. inv_token i = token) (invitations d) = [i]"
  by (auto simp: get_invitation_by_token_def objects_get_def split: list.splits)

lemma get_by_token_after_save:
  assumes "distinct (map inv_id (invitations d))"
    and "get_invitation_by_token d token = Got old"
    and "inv_token new = token" and "inv_id new = inv_id old"
  shows "get_invitation_by_token (save_invitation new d) token = Got new"
proof -
  from assms(2) have "filter (\<lambda>i. inv_token i = token) (invitations d) = [old]"
    by (rule get_by_token_Got)
  from filter_token_after_replace[OF assms(1) this assms(3,4)]
  show ?thesis using assms(4)
    by (simp add: get_invitation_by_token_def objects_get_def save_invitation_def)
qed

lemma validate_token_expired:
  assumes "get_invitation_by_token d token = Got i"
    and "inv_status i = PENDING" and "inv_expires_at i < now"
  shows "validate_token now d token =
           (ValidationError ''Invitation has expired.'',
            save_invitation (i\<lparr>inv_status := EXPIRED\<rparr>) d)"
  using assms by (simp add: validate_token_def is_expired_def)

text \<open>
  Claim C4: for every pending invitation whose expiry is earlier than the current time,
  an accept attempt with its token fails with the error "Invitation has expired."
  (HTTP 400), the invitation's status is saved as EXPIRED as a side effect of the check,
  and the project member table is unchanged.  \<open>ProjectInvitation.accept\<close> of
  invitation_models.py refuses such an invitation in the same way.
\<close>

theorem expired_pending_invitation_accept:
  assumes "distinct (map inv_id (invitations d))"
    and "get_invitation_by_token d token = Got i"
    and "inv_status i = PENDING"
    and "inv_expires_at i < now"
  shows "accept_invitation now d request_user token =
           (Response 400 ''Invitation has expired.'',
            save_invitation (i\<lparr>inv_status := EXPIRED\<rparr>) d) \<and>
         accept now i request_user d = (False, save_invitation (i\<lparr>inv_status := EXPIRED\<rparr>) d) \<and>
         get_invitation_by_token (save_invitation (i\<lparr>inv_status := EXPIRED\<rparr>) d) token
           = Got (i\<lparr>inv_status := EXPIRED\<rparr>) \<and>
         members (save_invitation (i\<lparr>inv_status := EXPIRED\<rparr>) d) = members d"
proof -
  have a: "accept_invitation now d request_user token =
           (Response 400 ''Invitation has expired.'',
            save_invitation (i\<lparr>inv_status := EXPIRED\<rparr>) d)"
    by (simp add: accept_invitation_def validate_token_expired[OF assms(2,3,4)])
  have b: "accept now i request_user d = (False, save_invitation (i\<lparr>inv_status := EXPIRED\<rparr>) d)"
    using assms(3,4) by (simp add: accept_def is_expired_alt_def)
  from assms(2) have "filter (\<lambda>i. inv_token i = token) (invitations d) = [i]"
    by (rule get_by_token_Got)
  then have "i \<in> set (filter (\<lambda>i. inv_token i = token) (invitations d))" by simp
  then have tok: "inv_token i = token" by simp
  have c: "get_invitation_by_token (save_invitation (i\<lparr>inv_status := EXPIRED\<rparr>) d) token
           = Got (i\<lparr>inv_status := EXPIRED\<rparr>)"
    by (rule get_by_token_after_save[OF assms(1,2)]) (simp_all add: tok)
  show ?thesis using a b c by (simp add: save_invitation_other_tables)
qed

theorem expired_pending_invitation_accept_witness:
  "distinct (map inv_id (invitations db_inv)) \<and>
   get_invitation_by_token db_inv 500 = Got inv_bob \<and>
   inv_status inv_bob = PENDING \<and> inv_expires_at inv_bob < 2000 \<and>
   accept_invitation 2000 db_inv alice 500 =
     (Response 400 ''Invitation has expired.'',
      save_invitation (inv_bob\<lparr>inv_status := EXPIRED\<rparr>) db_inv) \<and>
   members (save_invitation (inv_bob\<lparr>inv_status := EXPIRED\<rparr>) db_inv) = members db_inv"
proof -
  have h1: "distinct (map inv_id (invitations db_inv))" by code_simp
  have h2: "get_invitation_by_token db_inv 500 = Got inv_bob" by code_simp
  have h3: "inv_status inv_bob = PENDING" by code_simp
  have h4: "inv_expires_at inv_bob < 2000" by code_simp
  show ?thesis
    using h1 h2 h3 h4 expired_pending_invitation_accept[OF h1 h2 h3 h4, of alice]
    by simp
qed

lemma log_model_save_created:
  "log_model_save sender i True old d = d"
  by (simp add: log_model_save_def)

lemma create_project_member_Inr:
  assumes "create_project_member proj usr role active d = Inr d2"
  shows "members d2 = members d @
           [\<lparr>pm_id = fresh (map pm_id (members d)), pm_project = proj, pm_user = usr,
             pm_role = role, pm_is_active = active\<rparr>]"
    and "invitations d2 = invitations d" and "users d2 = users d"
    and "projects d2 = projects d" and "tasks d2 = tasks d"
    and "audit_logs d2 = audit_logs d" and "collation d2 = collation d"
  using assms
  by (auto simp: create_project_member_def log_model_save_created Let_def split: if_splits)

lemma validate_token_cases:
  "validate_token now d token = (Ok tok, d1) \<Longrightarrow>
     d1 = d \<and> tok = token \<and>
     (\<exists>i. get_invitation_by_token d token = Got i \<and> inv_status i = PENDING \<and> \<not> is_expired now i)"
  by (auto simp: validate_token_def split: get_result.splits if_splits)

lemma validate_token_members:
  "validate_token now d token = (res, d1) \<Longrightarrow> members d1 = members d"
  by (auto simp: validate_token_def save_invitation_def split: get_result.splits if_splits)

text \<open>
  Claim C5 at a failing input: alice, whose address is not the invited one, presents the
  token of bob's pending invitation.  \<open>ProjectViewSet.accept_invitation\<close> does not read the
  acting user: the request succeeds, a member row is created and the invitation is marked
  ACCEPTED.  \<open>ProjectInvitationViewSet.accept_invitation\<close> refuses the same request with
  HTTP 403 and leaves the database unchanged.
\<close>

theorem accept_invitation_ignores_acting_user:
  "u_email alice \<noteq> inv_email inv_bob \<and>
   get_invitation_by_token db_inv2 500 = Got inv_bob \<and>
   fst (accept_invitation 900 db_inv2 alice 500) = Response 200 ''Successfully joined'' \<and>
   members (snd (accept_invitation 900 db_inv2 alice 500)) =
     [alice_lead, \<lparr>pm_id = 21, pm_project = 10, pm_user = 3, pm_role = DEVELOPER,
        pm_is_active = True\<rparr>] \<and>
   map inv_status (invitations (snd (accept_invitation 900 db_inv2 alice 500)))
     = [ACCEPTED, ACCEPTED] \<and>
   accept_invitation_alt 900 db_inv2 alice 500 =
     (Response 403 ''This invitation is not for you'', db_inv2)"
  by code_simp

section \<open>Settled invitations\<close>

lemma fold_max_ge: "a \<le> fold max ids (a::nat)"
proof (induction ids arbitrary: a)
  case Nil
  then show ?case by simp
next
  case (Cons x xs)
  have "a \<le> max x a" by simp
  also have "\<dots> \<le> fold max xs (max x a)" by (rule Cons.IH)
  finally show ?case by simp
qed

lemma fold_max_mem: "x \<in> set ids \<Longrightarrow> x \<le> fold max ids (a::nat)"
proof (induction ids arbitrary: a)
  case Nil
  then show ?case by simp
next
  case (Cons y ys)
  show ?case
  proof (cases "x = y")
    case True
    have "x \<le> max y a" using True by simp
    also have "\<dots> \<le> fold max ys (max y a)" by (rule fold_max_ge)
    finally show ?thesis by simp
  next
    case False
    with Cons.prems have "x \<in> set ys" by simp
    then show ?thesis using Cons.IH by simp
  qed
qed

lemma fresh_notin: "fresh ids \<notin> set ids"
proof
  assume "fresh ids \<in> set ids"
  then have "fresh ids \<le> fold max ids 0" by (rule fold_max_mem)
  then show False by (simp add: fresh_def)
qed

lemma objects_get_Got: "objects_get P xs = Got x \<Longrightarrow> x \<in> set xs \<and> P x"
proof -
  assume "objects_get P xs = Got x"
  then have "filter P xs = [x]"
    by (auto simp: objects_get_def split: list.splits)
  then have "x \<in> set (filter P xs)" by simp
  then show ?thesis by simp
qed

lemma distinct_id_eq:
  "distinct (map inv_id xs) \<Longrightarrow> a \<in> set xs \<Longrightarrow> b \<in> set xs \<Longrightarrow> inv_id a = inv_id b \<Longrightarrow> a = b"
  by (auto simp: distinct_map inj_on_def)

lemma settled_kept_iff:
  "settled_kept xs ys =
     (\<forall>i\<in>set xs. inv_status i \<noteq> PENDING \<longrightarrow> (\<forall>i'\<in>set ys. inv_id i' = inv_id i \<longrightarrow> i' = i))"
  by (simp add: settled_kept_def list_all_iff)

lemma settled_keptI:
  assumes d: "distinct (map inv_id xs)"
    and rows: "\<And>y. y \<in> set ys \<Longrightarrow>
        y \<in> set xs \<or> inv_id y \<notin> inv_id ` set xs \<or>
        (\<exists>old\<in>set xs. inv_status old = PENDING \<and> inv_id y = inv_id old)"
  shows "settled_kept xs ys"
  unfolding settled_kept_iff
proof (intro ballI impI)
  fix i i'
  assume i: "i \<in> set xs" "inv_status i \<noteq> PENDING" and i': "i' \<in> set ys" "inv_id i' = inv_id i"
  from rows[OF i'(1)] show "i' = i"
  proof (elim disjE bexE conjE)
    assume "i' \<in> set xs"
    then show ?thesis using distinct_id_eq[OF d _ i(1) i'(2)] by blast
  next
    assume "inv_id i' \<notin> inv_id ` set xs"
    with i(1) i'(2) show ?thesis by auto
  next
    fix old
    assume old: "old \<in> set xs" "inv_status old = PENDING" "inv_id i' = inv_id old"
    with i'(2) have "inv_id old = inv_id i" by simp
    then have "old = i" using distinct_id_eq[OF d old(1) i(1)] by blast
    with old(2) i(2) show ?thesis by simp
  qed
qed

lemma save_invitation_rows:
  "y \<in> set (invitations (save_invitation new d)) \<Longrightarrow> y = new \<or> y \<in> set (invitations d)"
  by (auto simp: save_invitation_def)

lemma get_by_token_mem:
  "get_invitation_by_token d token = Got i \<Longrightarrow> i \<in> set (invitations d) \<and> inv_token i = token"
  unfolding get_invitation_by_token_def by (rule objects_get_Got)

lemma validate_token_rows:
  assumes "validate_token now d token = (res, d1)" and "y \<in> set (invitations d1)"
  shows "y \<in> set (invitations d) \<or>
         (\<exists>old\<in>set (invitations d). inv_status old = PENDING \<and> inv_id y = inv_id old)"
proof (cases "get_invitation_by_token d token")
  case DoesNotExist
  with assms show ?thesis by (simp add: validate_token_def)
next
  case MultipleObjectsReturned
  with assms show ?thesis by (simp add: validate_token_def)
next
  case (Got i)
  note mem = get_by_token_mem[OF Got]
  show ?thesis
  proof (cases "inv_status i = PENDING \<and> is_expired now i")
    case True
    with Got assms(1) have "d1 = save_invitation (i\<lparr>inv_status := EXPIRED\<rparr>) d"
      by (simp add: validate_token_def)
    with assms(2) save_invitation_rows[of y "i\<lparr>inv_status := EXPIRED\<rparr>" d]
    have "y = i\<lparr>inv_status := EXPIRED\<rparr> \<or> y \<in> set (invitations d)" by simp
    then show ?thesis using mem True by auto
  next
    case False
    with Got assms(1) have "d1 = d" by (auto simp: validate_token_def split: if_splits)
    with assms(2) show ?thesis by simp
  qed
qed

lemma save_pending_rows:
  assumes "old \<in> set (invitations d)" and "inv_status old = PENDING"
    and "inv_id new = inv_id old" and "y \<in> set (invitations (save_invitation new d))"
  shows "y \<in> set (invitations d) \<or>
         (\<exists>old\<in>set (invitations d). inv_status old = PENDING \<and> inv_id y = inv_id old)"
proof -
  from save_invitation_rows[OF assms(4)] have "y = new \<or> y \<in> set (invitations d)" .
  then show ?thesis using assms(1,2,3) by auto
qed

lemma resend_rows:
  assumes "y \<in> set (invitations (snd (resend_invitation now d usr qp pk iid)))"
  shows "y \<in> set (invitations d) \<or>
         (\<exists>old\<in>set (invitations d). inv_status old = PENDING \<and> inv_id y = inv_id old)"
proof (cases "get_object d usr POST Resend_invitation_action qp pk")
  case (Inl r)
  with assms show ?thesis by (simp add: resend_invitation_def)
next
  case (Inr proj)
  let ?g = "objects_get (\<lambda>i. inv_id i = iid \<and> inv_project i = p_id proj \<and>
                                 inv_status i = PENDING) (invitations d)"
  show ?thesis
  proof (cases ?g)
    case DoesNotExist
    with assms Inr show ?thesis by (simp add: resend_invitation_def)
  next
    case MultipleObjectsReturned
    with assms Inr show ?thesis by (simp add: resend_invitation_def)
  next
    case (Got i)
    from objects_get_Got[OF Got] have mem: "i \<in> set (invitations d)" "inv_status i = PENDING"
      by simp_all
    show ?thesis
    proof (cases "is_expired now i")
      case True
      with assms Inr Got
      have "y \<in> set (invitations (save_invitation (i\<lparr>inv_expires_at := now + SEVEN_DAYS\<rparr>) d))"
        by (simp add: resend_invitation_def)
      with mem show ?thesis
        using save_pending_rows[of i d "i\<lparr>inv_expires_at := now + SEVEN_DAYS\<rparr>" y] by simp
    next
      case False
      with assms Inr Got show ?thesis by (simp add: resend_invitation_def)
    qed
  qed
qed

lemma update_rows:
  assumes "y \<in> set (invitations (snd (update_invitation d usr qp pk iid r m)))"
  shows "y \<in> set (invitations d) \<or>
         (\<exists>old\<in>set (invitations d). inv_status old = PENDING \<and> inv_id y = inv_id old)"
proof (cases "get_object d usr PATCH Update_invitation_action qp pk")
  case (Inl resp)
  with assms show ?thesis by (simp add: update_invitation_def)
next
  case (Inr proj)
  let ?g = "objects_get (\<lambda>i. inv_id i = iid \<and> inv_project i = p_id proj \<and>
                                 inv_status i = PENDING) (invitations d)"
  show ?thesis
  proof (cases ?g)
    case DoesNotExist
    with assms Inr show ?thesis by (simp add: update_invitation_def)
  next
    case MultipleObjectsReturned
    with assms Inr show ?thesis by (simp add: update_invitation_def)
  next
    case (Got i)
    from objects_get_Got[OF Got] have mem: "i \<in> set (invitations d)" "inv_status i = PENDING"
      by simp_all
    have "\<exists>new. inv_id new = inv_id i \<and> y \<in> set (invitations (save_invitation new d))"
    proof (cases r)
      case None
      note rN = None
      show ?thesis
      proof (cases m)
        case None
        with rN assms Inr Got have "y \<in> set (invitations (save_invitation i d))"
          by (simp add: update_invitation_def)
        then show ?thesis by blast
      next
        case (Some x)
        with rN assms Inr Got have "y \<in> set (invitations (save_invitation (i\<lparr>inv_message := x\<rparr>) d))"
          by (simp add: update_invitation_def)
        moreover have "inv_id (i\<lparr>inv_message := x\<rparr>) = inv_id i" by simp
        ultimately show ?thesis by blast
      qed
    next
      case (Some z)
      note rS = Some
      show ?thesis
      proof (cases m)
        case None
        with rS assms Inr Got have "y \<in> set (invitations (save_invitation (i\<lparr>inv_role := z\<rparr>) d))"
          by (simp add: update_invitation_def)
        moreover have "inv_id (i\<lparr>inv_role := z\<rparr>) = inv_id i" by simp
        ultimately show ?thesis by blast
      next
        case (Some x)
        with rS assms Inr Got
        have "y \<in> set (invitations (save_invitation (i\<lparr>inv_role := z, inv_message := x\<rparr>) d))"
          by (simp add: update_invitation_def)
        moreover have "inv_id (i\<lparr>inv_role := z, inv_message := x\<rparr>) = inv_id i" by simp
        ultimately show ?thesis by blast
      qed
    qed
    then obtain new where "inv_id new = inv_id i" "y \<in> set (invitations (save_invitation new d))"
      by blast
    with mem show ?thesis using save_pending_rows[of i d new y] by blast
  qed
qed

lemma delete_rows:
  assumes "y \<in> set (invitations (snd (delete_invitation d usr qp pk iid)))"
  shows "y \<in> set (invitations d)"
proof (cases "get_object d usr DELETE Delete_invitation_action qp pk")
  case (Inl resp)
  with assms show ?thesis by (simp add: delete_invitation_def)
next
  case (Inr proj)
  then show ?thesis using assms
    by (cases "objects_get (\<lambda>i. inv_id i = iid \<and> inv_project i = p_id proj) (invitations d)")
      (simp_all add: delete_invitation_def)
qed

lemma reject_rows:
  assumes "y \<in> set (invitations (snd (reject_invitation now d usr token)))"
  shows "y \<in> set (invitations d) \<or>
         (\<exists>old\<in>set (invitations d). inv_status old = PENDING \<and> inv_id y = inv_id old)"
proof (cases "validate_token now d token")
  case (Pair res d1)
  show ?thesis
  proof (cases res)
    case (Ok tok)
    from validate_token_cases[OF Pair[unfolded Ok]]
    obtain i where d1: "d1 = d" "tok = token" and g: "get_invitation_by_token d token = Got i"
      and p: "inv_status i = PENDING" by blast
    from Pair Ok d1 g assms
    have "y \<in> set (invitations (save_invitation (i\<lparr>inv_status := REJECTED\<rparr>) d))"
      by (simp add: reject_invitation_def)
    from save_invitation_rows[OF this] get_by_token_mem[OF g] p show ?thesis by auto
  next
    case (ValidationError msg)
    with Pair assms have "y \<in> set (invitations d1)" by (simp add: reject_invitation_def)
    with Pair show ?thesis by (rule validate_token_rows)
  next
    case (Raised e)
    with Pair assms have "y \<in> set (invitations d1)" by (simp add: reject_invitation_def)
    with Pair show ?thesis by (rule validate_token_rows)
  qed
qed

lemma accept_rows:
  assumes "y \<in> set (invitations (snd (accept_invitation now d usr token)))"
  shows "y \<in> set (invitations d) \<or>
         (\<exists>old\<in>set (invitations d). inv_status old = PENDING \<and> inv_id y = inv_id old)"
proof (cases "validate_token now d token")
  case (Pair res d1)
  show ?thesis
  proof (cases res)
    case (Ok tok)
    from validate_token_cases[OF Pair[unfolded Ok]]
    obtain i where d1: "d1 = d" "tok = token" and g: "get_invitation_by_token d token = Got i"
      and p: "inv_status i = PENDING" by blast
    note mem = get_by_token_mem[OF g]
    let ?us = "filter (\<lambda>u. col_eq d (u_email u) (inv_email i)) (users d)"
    show ?thesis
    proof (cases ?us)
      case Nil
      with Pair Ok d1 g assms show ?thesis by (simp add: accept_invitation_def)
    next
      case (Cons u rest)
      show ?thesis
      proof (cases "list_ex (\<lambda>m. pm_project m = inv_project i \<and> pm_user m = u_id u \<and> pm_is_active m) (members d)")
        case True
        with Pair Ok d1 g Cons assms
        have "y \<in> set (invitations (save_invitation (i\<lparr>inv_status := ACCEPTED\<rparr>) d))"
          by (simp add: accept_invitation_def)
        from save_invitation_rows[OF this] mem p show ?thesis by auto
      next
        case False
        show ?thesis
        proof (cases "create_project_member (inv_project i) (u_id u) (inv_role i) True d")
          case (Inl e)
          with Pair Ok d1 g Cons False assms show ?thesis by (simp add: accept_invitation_def)
        next
          case (Inr d2)
          with Pair Ok d1 g Cons False assms
          have "y \<in> set (invitations (save_invitation
                  (i\<lparr>inv_status := ACCEPTED, inv_accepted_at := Some now\<rparr>) d2))"
            by (simp add: accept_invitation_def)
          from save_invitation_rows[OF this] create_project_member_Inr(2)[OF Inr] mem p
          show ?thesis by auto
        qed
      qed
    qed
  next
    case (ValidationError msg)
    with Pair assms have "y \<in> set (invitations d1)" by (simp add: accept_invitation_def)
    with Pair show ?thesis by (rule validate_token_rows)
  next
    case (Raised e)
    with Pair assms have "y \<in> set (invitations d1)" by (simp add: accept_invitation_def)
    with Pair show ?thesis by (rule validate_token_rows)
  qed
qed

lemma create_invitation_rows:
  "invitations (create_invitation now proj inviter role message email d) =
     invitations d @
       [\<lparr>inv_id = fresh (map inv_id (invitations d)), inv_project = proj,
         inv_invited_by = inviter, inv_email = email, inv_role = role,
         inv_token = fresh (map inv_token (invitations d)), inv_status = PENDING,
         inv_message = message, inv_expires_at = now + SEVEN_DAYS,
         inv_accepted_at = None\<rparr>]"
  by (simp add: create_invitation_def)

lemma create_invitations_rows:
  assumes "y \<in> set (invitations (fold (\<lambda>email. create_invitation now proj inviter role message (f email)) emails d))"
  shows "y \<in> set (invitations d) \<or> inv_id y \<notin> inv_id ` set (invitations d)"
  using assms
proof (induction emails arbitrary: d)
  case Nil
  then show ?case by simp
next
  case (Cons e es)
  define d1 where "d1 = create_invitation now proj inviter role message (f e) d"
  define n where "n = fresh (map inv_id (invitations d))"
  from Cons.prems have "y \<in> set (invitations (fold (\<lambda>email. create_invitation now proj inviter role message (f email)) es d1))"
    by (simp add: d1_def)
  from Cons.IH[OF this]
  have ih: "y \<in> set (invitations d1) \<or> inv_id y \<notin> inv_id ` set (invitations d1)" .
  have ids1: "inv_id ` set (invitations d1) = insert n (inv_id ` set (invitations d))"
    unfolding d1_def n_def create_invitation_rows by simp
  have rows1: "\<And>z. z \<in> set (invitations d1) \<Longrightarrow> z \<in> set (invitations d) \<or> inv_id z = n"
    unfolding d1_def n_def create_invitation_rows by auto
  have fr: "n \<notin> inv_id ` set (invitations d)"
    using fresh_notin[of "map inv_id (invitations d)"] by (simp add: n_def)
  from ih show ?case
  proof
    assume "y \<in> set (invitations d1)"
    from rows1[OF this] fr show ?thesis by auto
  next
    assume "inv_id y \<notin> inv_id ` set (invitations d1)"
    then show ?thesis unfolding ids1 by simp
  qed
qed

lemma invite_rows:
  assumes "y \<in> set (invitations (snd (invite_members now d usr qp pk req)))"
  shows "y \<in> set (invitations d) \<or> inv_id y \<notin> inv_id ` set (invitations d)"
proof (cases "get_object d usr POST Invite_members_action qp pk")
  case (Inl r)
  with assms show ?thesis by (simp add: invite_members_def)
next
  case (Inr proj)
  show ?thesis
  proof (cases "validate_invite d proj req")
    case (Ok t)
    obtain emails role message where t: "t = (emails, role, message)" by (cases t) auto
    from assms Inr Ok t
    have "y \<in> set (invitations (fold (\<lambda>email. create_invitation now (p_id proj) (u_id usr) role
              message (lower email)) emails d))"
      by (simp add: invite_members_def)
    then show ?thesis by (rule create_invitations_rows)
  next
    case (ValidationError msg)
    with assms Inr show ?thesis by (simp add: invite_members_def)
  next
    case (Raised e)
    with assms Inr show ?thesis by (simp add: invite_members_def)
  qed
qed

lemma reject_non_pending:
  assumes "get_invitation_by_token d token = Got i" and "inv_status i \<noteq> PENDING"
  shows "reject_invitation now d usr token =
           (Response 400 (''Invitation is '' @ status_lower (inv_status i) @ ''.''), d)"
  using assms by (simp add: reject_invitation_def validate_token_def)

lemma reject_only_pending:
  assumes "y \<in> set (invitations (snd (reject_invitation now d usr token)))"
    and "inv_status y = REJECTED"
  shows "y \<in> set (invitations d) \<or>
         (\<exists>old\<in>set (invitations d). inv_status old = PENDING \<and> inv_token old = token \<and>
             y = old\<lparr>inv_status := REJECTED\<rparr>)"
proof (cases "get_invitation_by_token d token")
  case DoesNotExist
  with assms(1) show ?thesis by (simp add: reject_invitation_def validate_token_def)
next
  case MultipleObjectsReturned
  with assms(1) show ?thesis by (simp add: reject_invitation_def validate_token_def)
next
  case (Got i)
  note mem = get_by_token_mem[OF Got]
  show ?thesis
  proof (cases "inv_status i = PENDING")
    case False
    with Got assms(1) show ?thesis by (simp add: reject_non_pending)
  next
    case True
    show ?thesis
    proof (cases "is_expired now i")
      case exp: True
      with Got True assms(1)
      have "y \<in> set (invitations (save_invitation (i\<lparr>inv_status := EXPIRED\<rparr>) d))"
        by (simp add: reject_invitation_def validate_token_def)
      from save_invitation_rows[OF this] assms(2) show ?thesis by auto
    next
      case nexp: False
      with Got True assms(1)
      have "y \<in> set (invitations (save_invitation (i\<lparr>inv_status := REJECTED\<rparr>) d))"
        by (simp add: reject_invitation_def validate_token_def)
      from save_invitation_rows[OF this] mem True show ?thesis by auto
    qed
  qed
qed

lemma dispatch_rows:
  assumes "y \<in> set (invitations (snd (dispatch now op d)))"
  shows "y \<in> set (invitations d) \<or> inv_id y \<notin> inv_id ` set (invitations d) \<or>
         (\<exists>old\<in>set (invitations d). inv_status old = PENDING \<and> inv_id y = inv_id old)"
proof (cases op)
  case (Accept_op u t)
  with assms accept_rows[of y now d u t] show ?thesis by simp
next
  case (Reject_op u t)
  with assms reject_rows[of y now d u t] show ?thesis by simp
next
  case (Resend_op u qp pk iid)
  with assms resend_rows[of y now d u qp pk iid] show ?thesis by simp
next
  case (Update_op u qp pk iid r m)
  with assms update_rows[of y d u qp pk iid r m] show ?thesis by simp
next
  case (Delete_op u qp pk iid)
  with assms delete_rows[of y d u qp pk iid] show ?thesis by simp
next
  case (Invite_op u qp pk req)
  with assms invite_rows[of y now d u qp pk req] show ?thesis by auto
qed

lemma dispatch_settled_kept:
  assumes "distinct (map inv_id (invitations d))"
  shows "settled_kept (invitations d) (invitations (snd (dispatch now op d)))"
  using assms by (rule settled_keptI) (rule dispatch_rows)


lemma terminal_not_pending: "terminal s \<Longrightarrow> s \<noteq> PENDING"
  by (auto simp: terminal_def)

text \<open>
  The requests of ProjectViewSet do not rewrite an invitation that has left PENDING: from
  every state with unique primary keys, an invitation whose status is ACCEPTED, REJECTED
  or EXPIRED is, as long as a row with its primary key remains in the table, that same
  row afterwards.  A reject request for an invitation that is not PENDING leaves the
  database as it was, and a row that is REJECTED after a reject request was REJECTED
  before or is the PENDING invitation of the presented token.
\<close>

lemma project_viewset_keeps_settled:
  assumes "distinct (map inv_id (invitations d))"
  shows "(\<forall>i\<in>set (invitations d). terminal (inv_status i) \<longrightarrow>
           (\<forall>i'\<in>set (invitations (snd (dispatch now op d))). inv_id i' = inv_id i \<longrightarrow> i' = i)) \<and>
         (\<forall>i. get_invitation_by_token d token = Got i \<longrightarrow> inv_status i \<noteq> PENDING \<longrightarrow>
              snd (reject_invitation now d usr token) = d) \<and>
         (\<forall>y\<in>set (invitations (snd (reject_invitation now d usr token))).
              inv_status y = REJECTED \<longrightarrow>
              y \<in> set (invitations d) \<or>
              (\<exists>old\<in>set (invitations d). inv_status old = PENDING \<and> inv_token old = token \<and>
                  y = old\<lparr>inv_status := REJECTED\<rparr>))"
proof (intro conjI)
  from dispatch_settled_kept[OF assms, of now op]
  show "\<forall>i\<in>set (invitations d). terminal (inv_status i) \<longrightarrow>
           (\<forall>i'\<in>set (invitations (snd (dispatch now op d))). inv_id i' = inv_id i \<longrightarrow> i' = i)"
    unfolding settled_kept_iff using terminal_not_pending by blast
next
  show "\<forall>i. get_invitation_by_token d token = Got i \<longrightarrow> inv_status i \<noteq> PENDING \<longrightarrow>
              snd (reject_invitation now d usr token) = d"
    by (simp add: reject_non_pending)
next
  show "\<forall>y\<in>set (invitations (snd (reject_invitation now d usr token))).
              inv_status y = REJECTED \<longrightarrow>
              y \<in> set (invitations d) \<or>
              (\<exists>old\<in>set (invitations d). inv_status old = PENDING \<and> inv_token old = token \<and>
                  y = old\<lparr>inv_status := REJECTED\<rparr>)"
    using reject_only_pending by blast
qed


section \<open>Deleting a project\<close>

lemma get_object_Inr:
  "get_object d usr method action qp pk = Inr obj \<Longrightarrow>
     obj \<in> set (projects d) \<and> p_id obj = pk \<and>
     has_object_permission d usr method action obj = Inr True"
proof -
  assume a: "get_object d usr method action qp pk = Inr obj"
  show ?thesis
  proof (cases "objects_get (\<lambda>p. p_id p = pk) (get_queryset d usr action qp)")
    case DoesNotExist
    with a show ?thesis by (simp add: get_object_def)
  next
    case MultipleObjectsReturned
    with a show ?thesis by (simp add: get_object_def)
  next
    case (Got p)
    from objects_get_Got[OF Got] have p: "p \<in> set (get_queryset d usr action qp)" "p_id p = pk"
      by simp_all
    have sub: "set (get_queryset d usr action qp) \<subseteq> set (projects d)"
      by (auto simp: get_queryset_def Let_def split: option.splits if_splits)
    from a Got have "has_object_permission d usr method action p = Inr True \<and> obj = p"
      by (auto simp: get_object_def split: sum.splits bool.splits if_splits)
    with p sub show ?thesis by auto
  qed
qed

lemma log_model_delete_tables:
  "projects (log_model_delete k i d) = projects d"
  "members (log_model_delete k i d) = members d"
  "invitations (log_model_delete k i d) = invitations d"
  "tasks (log_model_delete k i d) = tasks d"
  "users (log_model_delete k i d) = users d"
  by (simp_all add: log_model_delete_def AuditLog_log_def)

lemma fold_log_model_delete_tables:
  "projects (fold (\<lambda>x. log_model_delete k (f x)) xs d) = projects d"
  "members (fold (\<lambda>x. log_model_delete k (f x)) xs d) = members d"
  "invitations (fold (\<lambda>x. log_model_delete k (f x)) xs d) = invitations d"
  "tasks (fold (\<lambda>x. log_model_delete k (f x)) xs d) = tasks d"
  by (induction xs arbitrary: d) (simp_all add: log_model_delete_tables)

lemma delete_project_tables:
  "projects (delete_project proj d) = filter (\<lambda>p. p_id p \<noteq> p_id proj) (projects d)"
  "members (delete_project proj d) = filter (\<lambda>m. pm_project m \<noteq> p_id proj) (members d)"
  "invitations (delete_project proj d) = filter (\<lambda>i. inv_project i \<noteq> p_id proj) (invitations d)"
  "tasks (delete_project proj d) = filter (\<lambda>t. t_project t \<noteq> p_id proj) (tasks d)"
  by (simp_all add: delete_project_def Let_def log_model_delete_tables
      fold_log_model_delete_tables)

lemma destroy_with_tasks:
  assumes "get_object d usr DELETE Destroy_action qp pk = Inr obj"
    and "list_ex (\<lambda>t. t_project t = pk) (tasks d)"
  shows "destroy d usr qp pk = (Response 400 ''Cannot delete project with existing tasks'', d)"
proof -
  from get_object_Inr[OF assms(1)] have "p_id obj = pk" by simp
  with assms(2) have "filter (\<lambda>t. t_project t = p_id obj) (tasks d) \<noteq> []"
    by (simp add: filter_empty_conv list_ex_iff)
  with assms(1) show ?thesis by (simp add: destroy_def)
qed

lemma destroy_unchanged_with_tasks:
  assumes "list_ex (\<lambda>t. t_project t = pk) (tasks d)"
  shows "snd (destroy d usr qp pk) = d \<and> status_code (fst (destroy d usr qp pk)) \<noteq> 204"
proof (cases "get_object d usr DELETE Destroy_action qp pk")
  case (Inl r)
  then have sd: "destroy d usr qp pk = (r, d)" by (simp add: destroy_def)
  from Inl have "status_code r \<noteq> 204"
    by (auto simp: get_object_def split: get_result.splits sum.splits bool.splits)
  with sd show ?thesis by simp
next
  case (Inr obj)
  from destroy_with_tasks[OF Inr assms] show ?thesis by simp
qed

lemma destroy_changed_no_tasks:
  assumes "snd (destroy d usr qp pk) \<noteq> d"
  shows "\<not> list_ex (\<lambda>t. t_project t = pk) (tasks d)"
  using assms destroy_unchanged_with_tasks by blast

lemma destroy_without_tasks:
  assumes "get_object d usr DELETE Destroy_action qp pk = Inr obj"
    and "\<not> list_ex (\<lambda>t. t_project t = pk) (tasks d)"
  shows "destroy d usr qp pk = (Response 204 ''Project deleted successfully'', delete_project obj d)"
proof -
  from get_object_Inr[OF assms(1)] have "p_id obj = pk" by simp
  with assms(2) have "filter (\<lambda>t. t_project t = p_id obj) (tasks d) = []"
    by (simp add: filter_empty_conv list_ex_iff)
  with assms(1) show ?thesis by (simp add: destroy_def)
qed

text \<open>
  Claim C10: a delete request for a project that has at least one task leaves the whole
  database unchanged and never answers with the success status; when the requester gets
  past \<open>get_object\<close> (the project exists and the object permission is granted), the
  answer is HTTP 400 "Cannot delete project with existing tasks".  Whenever the request
  changes the database the project had no task, and a permitted request for a project
  without tasks answers 204 and removes the project and its member rows.
\<close>

theorem destroy_project_with_tasks:
  "(list_ex (\<lambda>t. t_project t = pk) (tasks d) \<longrightarrow>
      snd (destroy d usr qp pk) = d \<and> status_code (fst (destroy d usr qp pk)) \<noteq> 204 \<and>
      (\<forall>obj. get_object d usr DELETE Destroy_action qp pk = Inr obj \<longrightarrow>
         fst (destroy d usr qp pk) = Response 400 ''Cannot delete project with existing tasks'')) \<and>
   (snd (destroy d usr qp pk) \<noteq> d \<longrightarrow> \<not> list_ex (\<lambda>t. t_project t = pk) (tasks d)) \<and>
   (\<forall>obj. get_object d usr DELETE Destroy_action qp pk = Inr obj \<longrightarrow>
      \<not> list_ex (\<lambda>t. t_project t = pk) (tasks d) \<longrightarrow>
      fst (destroy d usr qp pk) = Response 204 ''Project deleted successfully'' \<and>
      \<not> list_ex (\<lambda>p. p_id p = pk) (projects (snd (destroy d usr qp pk))) \<and>
      \<not> list_ex (\<lambda>m. pm_project m = pk) (members (snd (destroy d usr qp pk))))"
proof (intro conjI impI allI)
  assume t: "list_ex (\<lambda>t. t_project t = pk) (tasks d)"
  from destroy_unchanged_with_tasks[OF t]
  show "snd (destroy d usr qp pk) = d" "status_code (fst (destroy d usr qp pk)) \<noteq> 204"
    by simp_all
  fix obj
  assume "get_object d usr DELETE Destroy_action qp pk = Inr obj"
  from destroy_with_tasks[OF this t]
  show "fst (destroy d usr qp pk) = Response 400 ''Cannot delete project with existing tasks''"
    by simp
next
  assume "snd (destroy d usr qp pk) \<noteq> d"
  then show "\<not> list_ex (\<lambda>t. t_project t = pk) (tasks d)" by (rule destroy_changed_no_tasks)
next
  fix obj
  assume g: "get_object d usr DELETE Destroy_action qp pk = Inr obj"
    and n: "\<not> list_ex (\<lambda>t. t_project t = pk) (tasks d)"
  note r = destroy_without_tasks[OF g n]
  from get_object_Inr[OF g] have pk: "p_id obj = pk" by simp
  from r show "fst (destroy d usr qp pk) = Response 204 ''Project deleted successfully''" by simp
  from r pk show "\<not> list_ex (\<lambda>p. p_id p = pk) (projects (snd (destroy d usr qp pk)))"
    by (simp add: delete_project_tables list_ex_iff)
  from r pk show "\<not> list_ex (\<lambda>m. pm_project m = pk) (members (snd (destroy d usr qp pk)))"
    by (simp add: delete_project_tables list_ex_iff)
qed

theorem destroy_project_with_tasks_witness:
  "list_ex (\<lambda>t. t_project t = 10) (tasks db_tasks) \<and>
   get_object db_tasks alice DELETE Destroy_action no_params 10 = Inr project_x \<and>
   destroy db_tasks alice no_params 10 =
     (Response 400 ''Cannot delete project with existing tasks'', db_tasks) \<and>
   get_object db_tasks alice DELETE Destroy_action no_params 11 = Inr project_y \<and>
   \<not> list_ex (\<lambda>t. t_project t = 11) (tasks db_tasks) \<and>
   fst (destroy db_tasks alice no_params 11) = Response 204 ''Project deleted successfully'' \<and>
   projects (snd (destroy db_tasks alice no_params 11)) = [project_x] \<and>
   members (snd (destroy db_tasks alice no_params 11)) = [alice_lead, bob_inactive]"
proof -
  have h1: "list_ex (\<lambda>t. t_project t = 10) (tasks db_tasks)" by code_simp
  have h2: "get_object db_tasks alice DELETE Destroy_action no_params 10 = Inr project_x"
    by code_simp
  have h3: "get_object db_tasks alice DELETE Destroy_action no_params 11 = Inr project_y"
    by code_simp
  have h4: "\<not> list_ex (\<lambda>t. t_project t = 11) (tasks db_tasks)" by code_simp
  have e: "projects (snd (destroy db_tasks alice no_params 11)) = [project_x]"
    "members (snd (destroy db_tasks alice no_params 11)) = [alice_lead, bob_inactive]"
    by code_simp+
  from destroy_project_with_tasks[of 10 db_tasks alice no_params] h1 h2
  have a: "destroy db_tasks alice no_params 10 =
     (Response 400 ''Cannot delete project with existing tasks'', db_tasks)"
    by (simp add: prod_eq_iff)
  from destroy_project_with_tasks[of 11 db_tasks alice no_params] h3 h4
  have b: "fst (destroy db_tasks alice no_params 11) = Response 204 ''Project deleted successfully''"
    by simp
  show ?thesis using h1 h2 h3 h4 e a b by simp
qed

section \<open>Duplicate invitations\<close>

text \<open>
  Claim C6 at a failing input, on a database that compares strings exactly: bob's
  invitation to project X is PENDING under the address b@x.com, and alice, the project's
  lead, sends an invite request naming B@x.com and b@x.com.  \<open>validate_emails\<close> keeps the
  first spelling, \<open>validate\<close> looks for pending invitations under the addresses as spelled,
  and the view stores the address lower-cased: the request is answered 201 and a second
  PENDING invitation for (project X, b@x.com) is created.
  \<open>ProjectInvitationViewSet.send_invitation\<close>, which lower-cases the address before it
  looks for a pending invitation, refuses it.
\<close>

theorem invite_members_duplicate_pending:
  "pending_unique db_cs \<and>
   map (\<lambda>i. (inv_project i, inv_email i, inv_status i)) (invitations db_cs) =
     [(10, ''b@x.com'', PENDING), (10, ''carol@x.com'', ACCEPTED)] \<and>
   fst (invite_members 900 db_cs alice no_params 10
          \<lparr>ir_emails = [''B@x.com'', ''b@x.com''], ir_role = None, ir_message = None\<rparr>) =
     Response 201 ''Successfully invited'' \<and>
   map (\<lambda>i. (inv_project i, inv_email i, inv_status i))
     (invitations (snd (invite_members 900 db_cs alice no_params 10
          \<lparr>ir_emails = [''B@x.com'', ''b@x.com''], ir_role = None, ir_message = None\<rparr>))) =
     [(10, ''b@x.com'', PENDING), (10, ''carol@x.com'', ACCEPTED), (10, ''b@x.com'', PENDING)] \<and>
   \<not> pending_unique (snd (invite_members 900 db_cs alice no_params 10
          \<lparr>ir_emails = [''B@x.com'', ''b@x.com''], ir_role = None, ir_message = None\<rparr>)) \<and>
   send_invitation 900 99 db_cs root_user
       \<lparr>sr_project = 10, sr_email = ''B@x.com'', sr_role = None, sr_message = None\<rparr> =
     (Response 400 ''Invitation already sent to this email'', db_cs)"
  by code_simp

section \<open>Creating a project\<close>

lemma serializer_create_Inr:
  assumes a: "serializer_create d (Some u) data = Some (Inr proj, d')"
  shows "p_id proj = fresh_project_id d \<and> projects d' = projects d @ [proj] \<and>
         members d' = members d @
           [\<lparr>pm_id = fresh (map pm_id (members d)), pm_project = fresh_project_id d,
             pm_user = u_id u, pm_role = LEAD, pm_is_active = True\<rparr>]"
proof -
  define generated where "generated = (case pd_code data of None \<Rightarrow> True | Some c \<Rightarrow> c = [])"
  define code_opt where "code_opt =
     (if generated
      then unique_code (\<lambda>c. list_ex (\<lambda>p. col_eq d (p_code p) c) (projects d))
             (base_code_of (pd_name data)) (base_code_of (pd_name data)) 1
      else (case pd_code data of Some c \<Rightarrow> Some (upper c) | None \<Rightarrow> None))"
  define manager where "manager = (case pd_manager data of
                       Some m \<Rightarrow> Some m
                     | None \<Rightarrow> (case Some u of Some u \<Rightarrow> Some (u_id u) | None \<Rightarrow> None))"
  have code: "\<exists>code. code_opt = Some code"
  proof (cases code_opt)
    case None
    with a show ?thesis
      unfolding serializer_create_def Let_def code_opt_def generated_def by simp
  next
    case (Some c)
    then show ?thesis by blast
  qed
  then obtain code where code: "code_opt = Some code" by blast
  define new_proj where "new_proj =
     \<lparr>p_id = fresh_project_id d, p_name = pd_name data, p_code = code,
       p_department = pd_department data, p_manager = manager,
       p_status = (case pd_status data of Some s \<Rightarrow> s | None \<Rightarrow> ''PLANNING''),
       p_is_active = (case pd_is_active data of Some a \<Rightarrow> a | None \<Rightarrow> True),
       p_start_date = pd_start_date data, p_end_date = pd_end_date data\<rparr>"
  define d1 where "d1 = log_model_save Project_model (instance_of (fresh_project_id d)) True None
                          (d\<lparr>projects := projects d @ [new_proj]\<rparr>)"
  have d1_eq: "d1 = d\<lparr>projects := projects d @ [new_proj]\<rparr>"
    unfolding d1_def by (rule log_model_save_created)
  have unf: "serializer_create d (Some u) data =
      Some (if list_ex (\<lambda>p. col_eq d (p_code p) code) (projects d)
            then (Inl IntegrityError, d)
            else (case create_project_member (fresh_project_id d) (u_id u) LEAD True d1 of
                    Inl e \<Rightarrow> (Inl e, d1)
                  | Inr d2 \<Rightarrow> (Inr new_proj, d2)))"
    unfolding serializer_create_def Let_def
      code[unfolded code_opt_def generated_def] d1_def new_proj_def manager_def
    by (simp only: option.case)
  from a unf have nt: "\<not> list_ex (\<lambda>p. col_eq d (p_code p) code) (projects d)"
    by (auto split: if_splits)
  with a unf obtain d2 where
    c: "create_project_member (fresh_project_id d) (u_id u) LEAD True d1 = Inr d2"
    and r: "proj = new_proj" "d' = d2"
    by (auto split: sum.splits)
  from create_project_member_Inr(1,4)[OF c] r
  show ?thesis by (simp add: d1_eq new_proj_def)
qed


lemma no_member_of_fresh_project:
  "filter (\<lambda>m. pm_project m = fresh_project_id d) (members d) = []"
proof -
  let ?ids = "map p_id (projects d) @ map pm_project (members d) @
              map inv_project (invitations d) @ map t_project (tasks d)"
  have "fresh ?ids \<notin> set ?ids" by (rule fresh_notin)
  then have "fresh ?ids \<notin> pm_project ` set (members d)" by simp
  then have "\<forall>m\<in>set (members d). pm_project m \<noteq> fresh_project_id d"
    unfolding fresh_project_id_def by (metis imageI)
  then show ?thesis by (simp add: filter_empty_conv)
qed

lemma create_project_created:
  assumes "create_project d usr data = Some (Response 201 msg, d')"
  shows "\<exists>validated proj. serializer_create d (Some usr) validated = Some (Inr proj, d')"
proof (cases "validate_create d data")
  case (ValidationError m)
  with assms show ?thesis by (simp add: create_project_def)
next
  case (Raised e)
  with assms show ?thesis by (simp add: create_project_def server_error_def)
next
  case (Ok validated)
  show ?thesis
  proof (cases "serializer_create d (Some usr) validated")
    case None
    with Ok assms show ?thesis by (simp add: create_project_def)
  next
    case (Some res)
    obtain r d1 where res: "res = (r, d1)" by (cases res) auto
    show ?thesis
    proof (cases r)
      case (Inl e)
      with Ok Some res assms show ?thesis by (simp add: create_project_def server_error_def)
    next
      case (Inr proj)
      with Ok Some res assms have "d1 = d'" by (simp add: create_project_def)
      with Some res Inr show ?thesis by blast
    qed
  qed
qed

lemma digit_char_inj:
  assumes "a < 10" "b < 10" "char_of (48 + a) = (char_of (48 + b :: nat) :: char)"
  shows "a = (b::nat)"
proof -
  from assms(3) have "(of_char (char_of (48 + a) :: char) :: nat) = of_char (char_of (48 + b) :: char)"
    by simp
  then have "(48 + a) mod 256 = (48 + b) mod 256" by simp
  with assms(1,2) show ?thesis by simp
qed

lemma str_nat_nonempty: "str_nat n \<noteq> []"
  by (subst str_nat.simps) simp

lemma str_nat_small: "n < 10 \<Longrightarrow> str_nat n = [char_of (48 + n)]"
  by (subst str_nat.simps) simp

lemma str_nat_large:
  "\<not> n < 10 \<Longrightarrow> str_nat n = str_nat (n div 10) @ [char_of (48 + n mod 10)]"
  by (subst str_nat.simps) simp

lemma str_nat_inj: "str_nat m = str_nat n \<Longrightarrow> m = n"
proof (induction m arbitrary: n rule: str_nat.induct)
  case (1 m)
  show ?case
  proof (cases "m < 10")
    case msmall: True
    show ?thesis
    proof (cases "n < 10")
      case True
      with msmall "1.prems" show ?thesis
        by (simp add: str_nat_small digit_char_inj)
    next
      case False
      with msmall "1.prems" str_nat_nonempty[of "n div 10"] show ?thesis
        by (simp add: str_nat_small str_nat_large)
    qed
  next
    case mlarge: False
    show ?thesis
    proof (cases "n < 10")
      case True
      with mlarge "1.prems" str_nat_nonempty[of "m div 10"] show ?thesis
        by (simp add: str_nat_small str_nat_large)
    next
      case False
      with mlarge "1.prems"
      have eq: "str_nat (m div 10) @ [char_of (48 + m mod 10)] =
                str_nat (n div 10) @ [char_of (48 + n mod 10)]"
        by (simp add: str_nat_large)
      then have a: "str_nat (m div 10) = str_nat (n div 10)"
        and b: "(char_of (48 + m mod 10) :: char) = char_of (48 + n mod 10)" by simp_all
      from "1.IH"[OF mlarge a] have d: "m div 10 = n div 10" .
      from b have r: "m mod 10 = n mod 10" by (intro digit_char_inj) simp_all
      have "m = 10 * (m div 10) + m mod 10" by simp
      also have "\<dots> = 10 * (n div 10) + n mod 10" using d r by simp
      also have "\<dots> = n" by simp
      finally show ?thesis .
    qed
  qed
qed

lemma lower_digit: "j < 10 \<Longrightarrow> lower_char (char_of (48 + j :: nat)) = char_of (48 + j)"
  by (simp add: lower_char_def Let_def)

lemma lower_str_nat: "lower (str_nat n) = str_nat n"
proof (induction n rule: str_nat.induct)
  case (1 n)
  show ?case
  proof (cases "n < 10")
    case True
    then show ?thesis by (simp add: str_nat_small lower_def lower_digit)
  next
    case False
    from "1.IH"[OF False] have "map lower_char (str_nat (n div 10)) = str_nat (n div 10)"
      by (simp add: lower_def)
    with False show ?thesis
      by (simp add: str_nat_large lower_def lower_digit)
  qed
qed

lemma unique_code_bounded:
  assumes bound: "\<And>k. taken (base @ str_nat k) \<Longrightarrow> k < B"
  shows "\<exists>c. unique_code taken base (base @ str_nat n) (Suc n) = Some c"
proof (induction "B - n" arbitrary: n rule: less_induct)
  case less
  show ?case
  proof (cases "taken (base @ str_nat n)")
    case False
    then show ?thesis by (subst unique_code.simps) simp
  next
    case True
    from bound[OF True] have "B - Suc n < B - n" by simp
    from less[OF this] obtain c where
      "unique_code taken base (base @ str_nat (Suc n)) (Suc (Suc n)) = Some c" by blast
    with True show ?thesis by (subst unique_code.simps) simp
  qed
qed

lemma taken_codes_finite:
  "finite {k. list_ex (\<lambda>p. col_eq d (p_code p) (base @ str_nat k)) (projects d)}"
proof -
  define key where "key = (\<lambda>s. case collation d of CaseInsensitive \<Rightarrow> lower s | CaseSensitive \<Rightarrow> s)"
  define K where "K = key ` p_code ` set (projects d)"
  define h where "h = (\<lambda>k. key (base @ str_nat k))"
  have fin: "finite K" by (simp add: K_def)
  have hk: "\<And>k. h k = key base @ str_nat k"
    by (cases "collation d") (simp_all add: h_def key_def lower_def lower_str_nat[unfolded lower_def])
  have "inj h"
  proof (rule injI)
    fix x y assume "h x = h y"
    then have "str_nat x = str_nat y" by (simp add: hk)
    then show "x = y" by (rule str_nat_inj)
  qed
  with fin have "finite (h -` K)" by (rule finite_vimageI)
  moreover have "{k. list_ex (\<lambda>p. col_eq d (p_code p) (base @ str_nat k)) (projects d)} \<subseteq> h -` K"
  proof
    fix k assume "k \<in> {k. list_ex (\<lambda>p. col_eq d (p_code p) (base @ str_nat k)) (projects d)}"
    then obtain p where p: "p \<in> set (projects d)" "col_eq d (p_code p) (base @ str_nat k)"
      by (auto simp: list_ex_iff)
    from p(2) have "key (p_code p) = h k"
      by (cases "collation d") (simp_all add: col_eq_def key_def h_def)
    with p(1) show "k \<in> h -` K" unfolding K_def by (metis imageI vimageI)
  qed
  ultimately show ?thesis by (rule rev_finite_subset)
qed

lemma unique_code_returns:
  "\<exists>c. unique_code (\<lambda>c. list_ex (\<lambda>p. col_eq d (p_code p) c) (projects d)) base code n = Some c"
proof -
  let ?taken = "\<lambda>c. list_ex (\<lambda>p. col_eq d (p_code p) c) (projects d)"
  let ?S = "{k. ?taken (base @ str_nat k)}"
  have "finite ?S" by (rule taken_codes_finite)
  then obtain B where B: "\<forall>k\<in>?S. k < B"
    using finite_nat_set_iff_bounded by blast
  then have bound: "\<And>k. ?taken (base @ str_nat k) \<Longrightarrow> k < B" by simp
  show ?thesis
  proof (cases "?taken code")
    case False
    then show ?thesis by (subst unique_code.simps) simp
  next
    case True
    from unique_code_bounded[of ?taken base B n, OF bound]
    obtain c where "unique_code ?taken base (base @ str_nat n) (Suc n) = Some c" by blast
    with True show ?thesis by (subst unique_code.simps) simp
  qed
qed

lemma serializer_create_returns: "serializer_create d usr data \<noteq> None"
proof -
  obtain c where "unique_code (\<lambda>c. list_ex (\<lambda>p. col_eq d (p_code p) c) (projects d))
       (base_code_of (pd_name data)) (base_code_of (pd_name data)) 1 = Some c"
    using unique_code_returns by blast
  then show ?thesis
    unfolding serializer_create_def Let_def
    by (cases "pd_code data") simp_all
qed

lemma create_project_returns: "create_project d usr data \<noteq> None"
proof (cases "validate_create d data")
  case (Ok validated)
  with serializer_create_returns[of d "Some usr" validated] show ?thesis
    by (auto simp: create_project_def split: option.splits sum.splits prod.splits)
qed (simp_all add: create_project_def)

text \<open>
  Claim C7: a create request always returns, and whenever it is answered 201 the new
  project is the last row of the project table, its identifier is the fresh one, and the
  member table holds exactly one row for it: the creator's, with role LEAD, active.
\<close>

theorem create_project_single_lead:
  "create_project d usr data \<noteq> None \<and>
   (create_project d usr data = Some (Response 201 msg, d') \<longrightarrow>
      projects d' = projects d @ [last (projects d')] \<and>
      p_id (last (projects d')) = fresh_project_id d \<and>
      filter (\<lambda>m. pm_project m = fresh_project_id d) (members d') =
        [\<lparr>pm_id = fresh (map pm_id (members d)), pm_project = fresh_project_id d,
          pm_user = u_id usr, pm_role = LEAD, pm_is_active = True\<rparr>])"
proof (rule conjI)
  show "create_project d usr data \<noteq> None" by (rule create_project_returns)
next
  have "projects d' = projects d @ [last (projects d')] \<and>
      p_id (last (projects d')) = fresh_project_id d \<and>
      filter (\<lambda>m. pm_project m = fresh_project_id d) (members d') =
        [\<lparr>pm_id = fresh (map pm_id (members d)), pm_project = fresh_project_id d,
          pm_user = u_id usr, pm_role = LEAD, pm_is_active = True\<rparr>]"
    if created: "create_project d usr data = Some (Response 201 msg, d')"
  proof -
  from create_project_created[OF created]
  obtain validated proj where "serializer_create d (Some usr) validated = Some (Inr proj, d')"
    by blast
  from serializer_create_Inr[OF this]
  have p: "p_id proj = fresh_project_id d" "projects d' = projects d @ [proj]"
    and m: "members d' = members d @
           [\<lparr>pm_id = fresh (map pm_id (members d)), pm_project = fresh_project_id d,
             pm_user = u_id usr, pm_role = LEAD, pm_is_active = True\<rparr>]"
    by simp_all
  from p have "last (projects d') = proj" by simp
  with p m show "projects d' = projects d @ [last (projects d')] \<and>
      p_id (last (projects d')) = fresh_project_id d \<and>
      filter (\<lambda>m. pm_project m = fresh_project_id d) (members d') =
        [\<lparr>pm_id = fresh (map pm_id (members d)), pm_project = fresh_project_id d,
          pm_user = u_id usr, pm_role = LEAD, pm_is_active = True\<rparr>]"
    by (simp add: no_member_of_fresh_project)
  qed
  then show "create_project d usr data = Some (Response 201 msg, d') \<longrightarrow>
      projects d' = projects d @ [last (projects d')] \<and>
      p_id (last (projects d')) = fresh_project_id d \<and>
      filter (\<lambda>m. pm_project m = fresh_project_id d) (members d') =
        [\<lparr>pm_id = fresh (map pm_id (members d)), pm_project = fresh_project_id d,
          pm_user = u_id usr, pm_role = LEAD, pm_is_active = True\<rparr>]"
    by blast
qed

theorem create_project_single_lead_witness:
  "create_project db_x bob new_project_data =
     Some (Response 201 ''Project created successfully'', db_x_created) \<and>
   last (projects db_x_created) =
     \<lparr>p_id = 11, p_name = ''Project x-ray'', p_code = ''PXR'', p_department = 1,
       p_manager = Some 3, p_status = ''PLANNING'', p_is_active = True,
       p_start_date = 5, p_end_date = 50\<rparr> \<and>
   filter (\<lambda>m. pm_project m = 11) (members db_x_created) =
     [\<lparr>pm_id = 22, pm_project = 11, pm_user = 3, pm_role = LEAD, pm_is_active = True\<rparr>]"
proof -
  have h: "create_project db_x bob new_project_data =
     Some (Response 201 ''Project created successfully'', db_x_created)" by code_simp
  have e: "fresh_project_id db_x = 11" "fresh (map pm_id (members db_x)) = 22" "u_id bob = 3"
    by code_simp+
  have l: "last (projects db_x_created) =
     \<lparr>p_id = 11, p_name = ''Project x-ray'', p_code = ''PXR'', p_department = 1,
       p_manager = Some 3, p_status = ''PLANNING'', p_is_active = True,
       p_start_date = 5, p_end_date = 50\<rparr>" by code_simp
  show ?thesis
    using h l create_project_single_lead[of db_x bob new_project_data
        "''Project created successfully''" db_x_created]
    by (simp add: e)
qed

end
